theory Spec2Isabelle
  imports Main
begin

section \<open>Document builder: \<^verbatim>\<open>Doc.getOperation\<close> and \<^verbatim>\<open>Doc.parseAPI\<close>\<close>

text \<open>
  The builder (package \<^verbatim>\<open>types\<close>) receives an \<^verbatim>\<open>API\<close> whose field \<^verbatim>\<open>API\<close> holds the
  text after \<^verbatim>\<open>@api\<close>: method, URL and summary separated by single spaces. The
  types \<^verbatim>\<open>Doc\<close> and those of package \<^verbatim>\<open>openapi\<close> are declared outside the embedded
  files; the records below carry the fields the code reads and writes (of \<^verbatim>\<open>API\<close>,
  the fields \<^verbatim>\<open>Doc.parseAPI\<close> copies). A Go pointer that may be \<^verbatim>\<open>nil\<close> is an
  \<open>option\<close>, a map that may be \<^verbatim>\<open>nil\<close> is an \<open>option\<close> of a map. No value of
  \<^verbatim>\<open>openapi.Response\<close> is built by the code embedded here.
\<close>

record Schema =
  Type :: string
  Default :: string

record MediaType =
  media_Schema :: "Schema option"

record RequestBody =
  Content :: "(string \<rightharpoonup> MediaType) option"

type_synonym Response = unit

record API =
  API_API :: string
  API_Tags :: "string list"
  API_Description :: string
  API_Deprecated :: bool
  API_OperationID :: string

record Operation =
  Tags :: "string list"
  Description :: string
  Deprecated :: bool
  OperationID :: string
  op_RequestBody :: "RequestBody option"
  Responses :: "(string \<rightharpoonup> Response) option"

record PathItem =
  Get :: "Operation option"
  Delete :: "Operation option"
  Post :: "Operation option"
  Put :: "Operation option"
  Patch :: "Operation option"
  Options :: "Operation option"
  Head :: "Operation option"
  Trace :: "Operation option"

record Doc =
  Paths :: "(string \<rightharpoonup> PathItem) option"

text \<open>
  The errors of \<^verbatim>\<open>getOperation\<close> are \<^verbatim>\<open>errors.New\<close> values with Chinese messages:
  "missing argument", "a same M route already exists" (M the method as the message
  spells it), "invalid request method".
\<close>

datatype doc_error =
  ErrMissingArgs
  | ErrDuplicateRoute string
  | ErrInvalidMethod

text \<open>The eight cases of the \<^verbatim>\<open>switch\<close>, used as the name of a slot of a PathItem.\<close>

datatype HTTPMethod =
  MethodGet | MethodDelete | MethodPost | MethodPut
  | MethodPatch | MethodOptions | MethodHead | MethodTrace

text \<open>
  \<^verbatim>\<open>strings.SplitN(s, sep, n)\<close> for a one-byte separator: at most \<open>n\<close> pieces, the
  last one the unsplit rest; \<open>n = 0\<close> gives no piece.
\<close>

fun SplitN :: "string \<Rightarrow> char \<Rightarrow> nat \<Rightarrow> string list" where
  "SplitN s sep 0 = []"
| "SplitN s sep (Suc 0) = [s]"
| "SplitN s sep (Suc (Suc n)) =
     (if sep \<in> set s
      then takeWhile (\<lambda>c. c \<noteq> sep) s # SplitN (tl (dropWhile (\<lambda>c. c \<noteq> sep) s)) sep (Suc n)
      else [s])"

definition emptyPathItem :: PathItem where
  "emptyPathItem = \<lparr>Get = None, Delete = None, Post = None, Put = None,
     Patch = None, Options = None, Head = None, Trace = None\<rparr>"

definition emptyOperation :: Operation where
  "emptyOperation = \<lparr>Tags = [], Description = [], Deprecated = False, OperationID = [],
     op_RequestBody = None, Responses = None\<rparr>"

text \<open>
  \<^verbatim>\<open>getOperation\<close>. The parameter \<open>ToUpper\<close> stands for \<^verbatim>\<open>strings.ToUpper\<close> of the
  standard library. The returned pointer to the new operation is the pair of the path
  and the slot where it was installed; the document is returned as the call leaves it,
  on the error paths too.
\<close>

definition getOperation ::
  "(string \<Rightarrow> string) \<Rightarrow> Doc \<Rightarrow> API \<Rightarrow> Doc \<times> (doc_error + string \<times> HTTPMethod)" where
  "getOperation ToUpper doc api =
    (let paths = (case Paths doc of None \<Rightarrow> Map.empty | Some m \<Rightarrow> m);
         strs = SplitN (API_API api) (CHR '' '') 3
     in if length strs \<noteq> 3 then (doc\<lparr>Paths := Some paths\<rparr>, Inl ErrMissingArgs)
        else
          let key = strs ! 1;
              path = (case paths key of None \<Rightarrow> emptyPathItem | Some p \<Rightarrow> p);
              paths = (case paths key of None \<Rightarrow> paths(key \<mapsto> path) | Some p \<Rightarrow> paths);
              m = ToUpper (strs ! 0);
              fail = (\<lambda>e. (doc\<lparr>Paths := Some paths\<rparr>, Inl e));
              install = (\<lambda>p r. (doc\<lparr>Paths := Some (paths(key \<mapsto> p))\<rparr>, Inr (key, r)))
          in if m = ''GET'' then
               (if Get path \<noteq> None then fail (ErrDuplicateRoute ''Get'')
                else install (path\<lparr>Get := Some emptyOperation\<rparr>) MethodGet)
             else if m = ''DELETE'' then
               (if Delete path \<noteq> None then fail (ErrDuplicateRoute ''Delete'')
                else install (path\<lparr>Delete := Some emptyOperation\<rparr>) MethodDelete)
             else if m = ''POST'' then
               (if Post path \<noteq> None then fail (ErrDuplicateRoute ''Post'')
                else install (path\<lparr>Post := Some emptyOperation\<rparr>) MethodPost)
             else if m = ''PUT'' then
               (if Put path \<noteq> None then fail (ErrDuplicateRoute ''Put'')
                else install (path\<lparr>Put := Some emptyOperation\<rparr>) MethodPut)
             else if m = ''PATCH'' then
               (if Patch path \<noteq> None then fail (ErrDuplicateRoute ''Patch'')
                else install (path\<lparr>Patch := Some emptyOperation\<rparr>) MethodPatch)
             else if m = ''OPTIONS'' then
               (if Options path \<noteq> None then fail (ErrDuplicateRoute ''Options'')
                else install (path\<lparr>Options := Some emptyOperation\<rparr>) MethodOptions)
             else if m = ''HEAD'' then
               (if Head path \<noteq> None then fail (ErrDuplicateRoute ''Head'')
                else install (path\<lparr>Head := Some emptyOperation\<rparr>) MethodHead)
             else if m = ''TRACE'' then
               (if Trace path \<noteq> None then fail (ErrDuplicateRoute ''Trace'')
                else install (path\<lparr>Trace := Some emptyOperation\<rparr>) MethodTrace)
             else fail ErrInvalidMethod)"

text \<open>Reading and writing the operation a returned pointer refers to.\<close>

fun slot :: "HTTPMethod \<Rightarrow> PathItem \<Rightarrow> Operation option" where
  "slot MethodGet p = Get p"
| "slot MethodDelete p = Delete p"
| "slot MethodPost p = Post p"
| "slot MethodPut p = Put p"
| "slot MethodPatch p = Patch p"
| "slot MethodOptions p = Options p"
| "slot MethodHead p = Head p"
| "slot MethodTrace p = Trace p"

fun set_slot :: "HTTPMethod \<Rightarrow> Operation \<Rightarrow> PathItem \<Rightarrow> PathItem" where
  "set_slot MethodGet o' p = p\<lparr>Get := Some o'\<rparr>"
| "set_slot MethodDelete o' p = p\<lparr>Delete := Some o'\<rparr>"
| "set_slot MethodPost o' p = p\<lparr>Post := Some o'\<rparr>"
| "set_slot MethodPut o' p = p\<lparr>Put := Some o'\<rparr>"
| "set_slot MethodPatch o' p = p\<lparr>Patch := Some o'\<rparr>"
| "set_slot MethodOptions o' p = p\<lparr>Options := Some o'\<rparr>"
| "set_slot MethodHead o' p = p\<lparr>Head := Some o'\<rparr>"
| "set_slot MethodTrace o' p = p\<lparr>Trace := Some o'\<rparr>"

definition operation_at :: "Doc \<Rightarrow> string \<Rightarrow> HTTPMethod \<Rightarrow> Operation option" where
  "operation_at doc key r =
     (case Paths doc of None \<Rightarrow> None
      | Some paths \<Rightarrow> (case paths key of None \<Rightarrow> None | Some p \<Rightarrow> slot r p))"

definition update_operation ::
  "Doc \<Rightarrow> string \<Rightarrow> HTTPMethod \<Rightarrow> (Operation \<Rightarrow> Operation) \<Rightarrow> Doc" where
  "update_operation doc key r f =
     (case Paths doc of None \<Rightarrow> doc
      | Some paths \<Rightarrow>
          (case paths key of None \<Rightarrow> doc
           | Some p \<Rightarrow>
               (case slot r p of None \<Rightarrow> doc
                | Some o' \<Rightarrow> doc\<lparr>Paths := Some (paths(key \<mapsto> set_slot r (f o') p))\<rparr>)))"

text \<open>\<^verbatim>\<open>API.parseParameter\<close> is a stub that returns \<^verbatim>\<open>nil\<close>.\<close>

definition parseParameter :: "API \<Rightarrow> Operation \<Rightarrow> doc_error option" where
  "parseParameter api o' = None"

text \<open>
  \<^verbatim>\<open>Doc.parseAPI\<close>: the add operation of the builder. The assignments through the
  pointer \<^verbatim>\<open>o\<close> are updates of the operation inside the document.
\<close>

definition Doc_parseAPI :: "(string \<Rightarrow> string) \<Rightarrow> Doc \<Rightarrow> API \<Rightarrow> Doc \<times> doc_error option" where
  "Doc_parseAPI ToUpper doc api =
    (case getOperation ToUpper doc api of
       (doc, Inl err) \<Rightarrow> (doc, Some err)
     | (doc, Inr (key, r)) \<Rightarrow>
         (let doc = update_operation doc key r
                (\<lambda>o'. o'\<lparr>Tags := API_Tags api, Description := API_Description api,
                           Deprecated := API_Deprecated api, OperationID := API_OperationID api\<rparr>)
          in case (case operation_at doc key r of
                     None \<Rightarrow> None | Some o' \<Rightarrow> parseParameter api o') of
               Some err \<Rightarrow> (doc, Some err)
             | None \<Rightarrow>
                 (update_operation doc key r
                    (\<lambda>o'. o'\<lparr>op_RequestBody := Some \<lparr>Content = None\<rparr>,
                              Responses := Some Map.empty\<rparr>), None)))"

text \<open>The builder fed a list of APIs one at a time; the errors go to the caller.\<close>

definition add_all :: "(string \<Rightarrow> string) \<Rightarrow> Doc \<Rightarrow> API list \<Rightarrow> Doc" where
  "add_all ToUpper doc apis = fold (\<lambda>api d. fst (Doc_parseAPI ToUpper d api)) apis doc"

text \<open>
  The slot a method name selects, \<open>None\<close> for any other name, and the way the
  duplicate-route message spells the method of a slot.
\<close>

fun route_name :: "HTTPMethod \<Rightarrow> string" where
  "route_name MethodGet = ''Get''"
| "route_name MethodDelete = ''Delete''"
| "route_name MethodPost = ''Post''"
| "route_name MethodPut = ''Put''"
| "route_name MethodPatch = ''Patch''"
| "route_name MethodOptions = ''Options''"
| "route_name MethodHead = ''Head''"
| "route_name MethodTrace = ''Trace''"


definition method_slot :: "string \<Rightarrow> HTTPMethod option" where
  "method_slot m =
     (if m = ''GET'' then Some MethodGet
      else if m = ''DELETE'' then Some MethodDelete
      else if m = ''POST'' then Some MethodPost
      else if m = ''PUT'' then Some MethodPut
      else if m = ''PATCH'' then Some MethodPatch
      else if m = ''OPTIONS'' then Some MethodOptions
      else if m = ''HEAD'' then Some MethodHead
      else if m = ''TRACE'' then Some MethodTrace
      else None)"

text \<open>How the document looks once \<^verbatim>\<open>getOperation\<close> has looked the path up.\<close>

definition installed_paths :: "Doc \<Rightarrow> string \<Rightarrow> (string \<rightharpoonup> PathItem)" where
  "installed_paths doc key =
     (let paths = (case Paths doc of None \<Rightarrow> Map.empty | Some m \<Rightarrow> m)
      in case paths key of None \<Rightarrow> paths(key \<mapsto> emptyPathItem) | Some p \<Rightarrow> paths)"

text \<open>The operation a successful \<^verbatim>\<open>Doc.parseAPI\<close> leaves in the slot.\<close>

definition operation_of :: "API \<Rightarrow> Operation" where
  "operation_of api = \<lparr>Tags = API_Tags api, Description = API_Description api,
     Deprecated = API_Deprecated api, OperationID = API_OperationID api,
     op_RequestBody = Some \<lparr>Content = None\<rparr>, Responses = Some Map.empty\<rparr>"

text \<open>
  Upper- and lower-casing of ASCII letters, the instances of \<^verbatim>\<open>strings.ToUpper\<close> and
  \<^verbatim>\<open>bytes.ToLower\<close> used where a concrete input is evaluated.
\<close>

definition ascii_upper :: "string \<Rightarrow> string" where
  "ascii_upper s =
     map (\<lambda>c. if 97 \<le> (of_char c :: nat) \<and> (of_char c :: nat) \<le> 122
              then char_of ((of_char c :: nat) - 32) else c) s"

definition ascii_lower :: "string \<Rightarrow> string" where
  "ascii_lower s =
     map (\<lambda>c. if 65 \<le> (of_char c :: nat) \<and> (of_char c :: nat) \<le> 90
              then char_of ((of_char c :: nat) + 32) else c) s"

text \<open>The PathItem the document holds under a path, and an \<^verbatim>\<open>API\<close> value to add.\<close>

definition path_item :: "Doc \<Rightarrow> string \<Rightarrow> PathItem option" where
  "path_item doc key = (case Paths doc of None \<Rightarrow> None | Some paths \<Rightarrow> paths key)"

definition mk_API :: "string \<Rightarrow> string list \<Rightarrow> API" where
  "mk_API s ts = \<lparr>API_API = s, API_Tags = ts, API_Description = [], API_Deprecated = False,
     API_OperationID = []\<rparr>"

section \<open>Tag parser: \<^verbatim>\<open>parser.parseAPI\<close>, \<^verbatim>\<open>api.parseAPI\<close>, \<^verbatim>\<open>api.parseRequest\<close>\<close>

text \<open>
  The parser reads tags from a \<^verbatim>\<open>lexer\<close> with \<^verbatim>\<open>l.tag()\<close>, which returns the next tag
  or reports the end of the block. The lexer, the tag type and \<^verbatim>\<open>tag.syntaxError\<close>
  are not among the embedded files: the lexer is the list of the tags not yet read
  (the tag splitter's ordered output), \<^verbatim>\<open>l.tag()\<close> takes its head, and a syntax error
  carries the tag's file and line with the formatted message, as \<^verbatim>\<open>Tag.Error\<close> of
  package \<^verbatim>\<open>syntax\<close> builds it.
\<close>

record tag =
  tag_name :: string
  tag_data :: string
  tag_file :: string
  tag_line :: nat

datatype locale_key =
  ErrDuplicateTag | ErrTagArgNotEnough | ErrInvalidFormat | ErrInvalidTag | ErrNotFoundEndFlag

datatype message = Sprintf locale_key "string list"

datatype SyntaxError = SyntaxError string nat message

definition syntaxError :: "tag \<Rightarrow> message \<Rightarrow> SyntaxError" where
  "syntaxError t msg = SyntaxError (tag_file t) (tag_line t) msg"

datatype ParameterIN = ParameterINQuery | ParameterINPath

record Parameter =
  Name :: string
  IN :: ParameterIN
  param_Description :: string
  Required :: bool
  AllowEmptyValue :: bool
  param_Schema :: "Schema option"

record api =
  api_method :: string
  path :: string
  summary :: string
  description :: string
  group :: string
  tags :: "string list"
  version :: string
  deprecated :: bool
  params :: "Parameter list option"
  request :: "RequestBody option"
  responses :: "(string \<rightharpoonup> Response) option"

text \<open>
  The zero value \<^verbatim>\<open>&api{}\<close>. The field \<^verbatim>\<open>method\<close> is written \<open>api_method\<close>, its own name
  being a keyword of Isabelle.
\<close>

definition new_api :: api where
  "new_api = \<lparr>api_method = [], path = [], summary = [], description = [], group = [],
     tags = [], version = [], deprecated = False, params = None, request = None,
     responses = None\<rparr>"

text \<open>
  The functions the parser calls that are not among the embedded files: \<^verbatim>\<open>bytes.ToLower\<close>
  and \<^verbatim>\<open>strings.ToUpper\<close> of the standard library, \<^verbatim>\<open>version.SemVerValid\<close> of
  \<^verbatim>\<open>github.com/issue9/version\<close>, and the package's own \<^verbatim>\<open>split\<close>. The parser is
  embedded for any four such functions.
\<close>

record env =
  ToLower :: "string \<Rightarrow> string"
  ToUpper :: "string \<Rightarrow> string"
  split :: "string \<Rightarrow> nat \<Rightarrow> string list"
  SemVerValid :: "string \<Rightarrow> bool"

text \<open>\<^verbatim>\<open>bytes.IndexByte\<close>: the index of the first occurrence, \<open>-1\<close> when there is none.\<close>

fun IndexByte :: "string \<Rightarrow> char \<Rightarrow> int" where
  "IndexByte [] c = - 1"
| "IndexByte (x # xs) c =
     (if x = c then 0 else (let i = IndexByte xs c in if i < 0 then - 1 else i + 1))"

text \<open>
  The loop of the \<^verbatim>\<open>@apiTags\<close> case. \<^verbatim>\<open>index\<close> is computed from \<^verbatim>\<open>tag.data\<close> in every
  round, \<^verbatim>\<open>start\<close> stays \<open>0\<close>. \<open>None\<close> is the loop that does not return. When
  \<^verbatim>\<open>index\<close> exceeds \<^verbatim>\<open>len(data)\<close>, the slice expression \<^verbatim>\<open>data[start:index]\<close> either
  panics (beyond the capacity) or reads bytes of the backing array behind the slice; it
  stands in the branch that goes round again, so the model, which appends what \<open>data\<close>
  holds, differs from the code only in what an unreturned call would have appended.
\<close>

partial_function (option) tags_loop :: "string \<Rightarrow> string \<Rightarrow> string list \<Rightarrow> string list option" where
  "tags_loop tagdata data objtags =
     (if IndexByte tagdata (CHR '','') \<le> 0
      then Some (objtags @ [drop 0 data])
      else tags_loop tagdata (drop (nat (IndexByte tagdata (CHR '','') + 1)) tagdata)
             (objtags @ [take (nat (IndexByte tagdata (CHR '','')) - 0) (drop 0 data)]))"

declare tags_loop.simps [code]

text \<open>
  The body of the \<^verbatim>\<open>switch\<close> of \<^verbatim>\<open>api.parseAPI\<close> for one tag: the object as the case
  leaves it, and the error the case returns, if any.
\<close>

definition api_tag :: "env \<Rightarrow> api \<Rightarrow> tag \<Rightarrow> (api \<times> SyntaxError option) option" where
  "api_tag env obj t =
    (let n = ToLower env (tag_name t) in
     if n = ''@apigroup'' then
       (if group obj \<noteq> [] then
          Some (obj, Some (syntaxError t (Sprintf ErrDuplicateTag [''@apiGroup''])))
        else Some (obj\<lparr>group := tag_data t\<rparr>, None))
     else if n = ''@apitags'' then
       (if length (tags obj) > 0 then
          Some (obj, Some (syntaxError t (Sprintf ErrDuplicateTag [''@apiTags''])))
        else (case tags_loop (tag_data t) (tag_data t) (tags obj) of
                None \<Rightarrow> None
              | Some ts \<Rightarrow> Some (obj\<lparr>tags := ts\<rparr>, None)))
     else if n = ''@apiversion'' then
       (if version obj \<noteq> [] then
          Some (obj, Some (syntaxError t (Sprintf ErrDuplicateTag [''@apiVersion''])))
        else if \<not> SemVerValid env (tag_data t) then
          Some (obj\<lparr>version := tag_data t\<rparr>,
                Some (syntaxError t (Sprintf ErrInvalidFormat [''@apiVersion''])))
        else Some (obj\<lparr>version := tag_data t\<rparr>, None))
     else if n = ''@apideprecated'' then Some (obj\<lparr>deprecated := True\<rparr>, None)
     else if n = ''@apiquery'' then
       (let ps = (case params obj of None \<Rightarrow> [] | Some ps \<Rightarrow> ps);
            fields = split env (tag_data t) 4
        in if length fields \<noteq> 4 then
             Some (obj\<lparr>params := Some ps\<rparr>,
                   Some (syntaxError t (Sprintf ErrTagArgNotEnough [''@apiQuery''])))
           else Some (obj\<lparr>params := Some (ps @
                  [\<lparr>Name = fields ! 0, IN = ParameterINQuery, param_Description = fields ! 3,
                    Required = False, AllowEmptyValue = True,
                    param_Schema = Some \<lparr>Type = fields ! 1, Default = fields ! 2\<rparr>\<rparr>])\<rparr>, None))
     else if n = ''@apiparam'' then
       (let ps = (case params obj of None \<Rightarrow> [] | Some ps \<Rightarrow> ps);
            fields = split env (tag_data t) 4
        in if length fields \<noteq> 4 then
             Some (obj\<lparr>params := Some ps\<rparr>,
                   Some (syntaxError t (Sprintf ErrTagArgNotEnough [''@apiParam''])))
           else Some (obj\<lparr>params := Some (ps @
                  [\<lparr>Name = fields ! 0, IN = ParameterINPath, param_Description = fields ! 3,
                    Required = True, AllowEmptyValue = False,
                    param_Schema = Some \<lparr>Type = fields ! 1, Default = fields ! 2\<rparr>\<rparr>])\<rparr>, None))
     else Some (obj, None))"

text \<open>
  A parse returns the error (\<open>None\<close> for \<^verbatim>\<open>nil\<close>), the object behind \<^verbatim>\<open>obj\<close> as the call
  leaves it, and the tags left in the lexer.
\<close>

type_synonym result = "SyntaxError option \<times> api \<times> tag list"

text \<open>
  \<^verbatim>\<open>api.parseAPI\<close>: one round of the loop per tag; the \<^verbatim>\<open>default\<close> case holds a comment
  only, so the loop goes on to the next tag.
\<close>

fun api_parseAPI :: "env \<Rightarrow> api \<Rightarrow> tag list \<Rightarrow> result option" where
  "api_parseAPI env obj [] = Some (None, obj, [])"
| "api_parseAPI env obj (t # ts) =
     (case api_tag env obj t of
        None \<Rightarrow> None
      | Some (obj', Some err) \<Rightarrow> Some (Some err, obj', ts)
      | Some (obj', None) \<Rightarrow> api_parseAPI env obj' ts)"

text \<open>
  \<^verbatim>\<open>api.parseRequest\<close>: the request body is assigned, then the loop reads tags to the
  end of the block; its three cases hold comments only.
\<close>

fun request_loop :: "env \<Rightarrow> api \<Rightarrow> tag list \<Rightarrow> result" where
  "request_loop env obj [] = (None, obj, [])"
| "request_loop env obj (t # ts) =
     (let n = ToLower env (tag_name t) in
      if n = ''@apiheader'' then request_loop env obj ts
      else if n = ''@apiparam'' then request_loop env obj ts
      else request_loop env obj ts)"

definition api_parseRequest :: "env \<Rightarrow> api \<Rightarrow> tag list \<Rightarrow> string \<Rightarrow> string \<Rightarrow> result" where
  "api_parseRequest env obj l mimetype typ =
     request_loop env
       (obj\<lparr>request := Some \<lparr>Content = Some [mimetype \<mapsto>
          \<lparr>media_Schema = Some \<lparr>Type = typ, Default = []\<rparr>\<rparr>]\<rparr>\<rparr>) l"

lemma api_parseAPI_rest:
  "api_parseAPI env obj ts = Some (e, obj', rest) \<Longrightarrow> length rest \<le> length ts"
proof (induction ts arbitrary: obj)
  case Nil
  then show ?case by simp
next
  case (Cons t ts)
  show ?case
  proof (cases "api_tag env obj t")
    case None
    then show ?thesis using Cons.prems by simp
  next
    case (Some r)
    obtain o1 e1 where r: "r = (o1, e1)" by (cases r)
    show ?thesis
    proof (cases e1)
      case None
      then have "api_parseAPI env o1 ts = Some (e, obj', rest)"
        using Cons.prems Some r by simp
      then have "length rest \<le> length ts" by (rule Cons.IH)
      then show ?thesis by simp
    next
      case (Some err)
      then show ?thesis using Cons.prems \<open>api_tag env obj t = Some r\<close> r by auto
    qed
  qed
qed

lemma request_loop_rest: "request_loop env obj ts = (None, obj, [])"
  by (induction ts) (simp_all add: Let_def)

text \<open>
  \<^verbatim>\<open>parser.parseAPI\<close>: the loop over the tags of a block, started on a new object. The
  two lemmas above give its termination: a nested parse returns no more tags than it was
  given.
\<close>

function parser_loop :: "env \<Rightarrow> api \<Rightarrow> tag list \<Rightarrow> result option" where
  "parser_loop env obj [] = Some (None, obj, [])"
| "parser_loop env obj (t # ts) =
     (let n = ToLower env (tag_name t) in
      if n = ''@api'' then
        (if api_method obj \<noteq> [] \<or> path obj \<noteq> [] \<or> summary obj \<noteq> [] then
           Some (Some (syntaxError t (Sprintf ErrDuplicateTag [''@api''])), obj, ts)
         else if length (split env (tag_data t) 3) \<noteq> 3 then
           Some (Some (syntaxError t (Sprintf ErrTagArgNotEnough [''@api''])), obj, ts)
         else
           (case api_parseAPI env
                   (obj\<lparr>api_method := ToUpper env (split env (tag_data t) 3 ! 0),
                        path := split env (tag_data t) 3 ! 1,
                        summary := split env (tag_data t) 3 ! 2\<rparr>) ts of
              None \<Rightarrow> None
            | Some (Some err, obj', l) \<Rightarrow> Some (Some err, obj', l)
            | Some (None, obj', l) \<Rightarrow> parser_loop env obj' l))
      else if n = ''@apirequest'' then
        (if length (split env (tag_data t) 2) \<noteq> 2 then
           Some (Some (syntaxError t (Sprintf ErrInvalidFormat [''@apiRequest''])), obj, ts)
         else
           (case api_parseRequest env obj ts
                   (split env (tag_data t) 2 ! 0) (split env (tag_data t) 2 ! 1) of
              (Some err, obj', l) \<Rightarrow> Some (Some err, obj', l)
            | (None, obj', l) \<Rightarrow> parser_loop env obj' l))
      else if n = ''@apiresponse'' then parser_loop env obj ts
      else Some (Some (syntaxError t (Sprintf ErrInvalidTag [tag_name t])), obj, ts))"
  by pat_completeness auto
termination
proof (relation "measure (\<lambda>(env, obj, ts). length ts)")
qed (auto dest!: api_parseAPI_rest simp: api_parseRequest_def request_loop_rest)

definition parser_parseAPI :: "env \<Rightarrow> tag list \<Rightarrow> result option" where
  "parser_parseAPI env l = parser_loop env new_api l"

text \<open>
  Modelled from the spec: \<^verbatim>\<open>split\<close>, the parser's own helper, is not among the embedded
  files. "\<^verbatim>\<open>split(data, n)\<close> splits on runs of whitespace into at most \<^verbatim>\<open>n\<close> fields; the
  last field captures the remainder verbatim."
\<close>

definition is_space :: "char \<Rightarrow> bool" where
  "is_space c = (c = CHR '' '' \<or> c = CHR 0x09 \<or> c = CHR 0x0A \<or> c = CHR 0x0D)"

fun split_fields :: "string \<Rightarrow> nat \<Rightarrow> string list" where
  "split_fields s 0 = []"
| "split_fields s (Suc n) =
     (let s' = dropWhile is_space s in
      if s' = [] then []
      else if n = 0 then [s']
      else takeWhile (\<lambda>c. \<not> is_space c) s' # split_fields (dropWhile (\<lambda>c. \<not> is_space c) s') n)"

text \<open>
  Modelled from the spec: the semantic-version check is a function of another
  repository. "\<^verbatim>\<open>@apiVersion\<close> value must match \<^verbatim>\<open>X.Y.Z[-pre][+build]\<close>": three dot-separated
  runs of digits, then an optional pre-release after \<^verbatim>\<open>-\<close> and build after \<^verbatim>\<open>+\<close>.
\<close>

definition is_digit :: "char \<Rightarrow> bool" where
  "is_digit c = (48 \<le> (of_char c :: nat) \<and> (of_char c :: nat) \<le> 57)"

definition semver_valid :: "string \<Rightarrow> bool" where
  "semver_valid s =
     (let core = takeWhile (\<lambda>c. c \<noteq> CHR ''-'') (takeWhile (\<lambda>c. c \<noteq> CHR ''+'') s);
          nums = SplitN core (CHR ''.'') (Suc (length core))
      in length nums = 3 \<and> list_all (\<lambda>p. p \<noteq> [] \<and> list_all is_digit p) nums)"

text \<open>The environment in which concrete inputs are evaluated.\<close>

definition ascii_env :: env where
  "ascii_env = \<lparr>ToLower = ascii_lower, ToUpper = ascii_upper, split = split_fields,
     SemVerValid = semver_valid\<rparr>"

definition mk_tag :: "string \<Rightarrow> string \<Rightarrow> nat \<Rightarrow> tag" where
  "mk_tag n d ln = \<lparr>tag_name = n, tag_data = d, tag_file = ''x.go'', tag_line = ln\<rparr>"

section \<open>Block lexer: \<^verbatim>\<open>Input.parseFile\<close>\<close>

text \<open>
  \<^verbatim>\<open>parseFile\<close> sends the blocks of one file to a channel and its errors to a message
  handler. The output is the list of the blocks sent and the list of the errors
  reported, each in the order of the calls. \<^verbatim>\<open>core.Position\<close>, \<^verbatim>\<open>core.Range\<close>,
  \<^verbatim>\<open>spec.Block\<close> and the constructors of errors are declared outside the embedded files.
\<close>

record core_Position =
  Line :: nat
  Column :: nat
  Offset :: nat

record core_Range =
  Start :: core_Position
  End :: core_Position

record spec_Block =
  File :: string
  Range :: core_Range
  Data :: string
  Raw :: string

datatype core_error =
  NewLocaleError string string nat locale_key
  | WithError string string nat string

record file_output =
  sent :: "spec_Block list"
  reported :: "core_error list"

text \<open>
  The lexer and its blockers (\<^verbatim>\<open>lang.NewLexer\<close>, \<^verbatim>\<open>AtEOF\<close>, \<^verbatim>\<open>Block\<close>, \<^verbatim>\<open>Position\<close>, and
  \<^verbatim>\<open>EndFunc\<close> of the interface \<^verbatim>\<open>Blocker\<close>) are parameters of \<^verbatim>\<open>parseFile\<close>: \<open>'l\<close> is the
  state of the lexer with the blockers it holds, \<open>'b\<close> names a blocker. A method
  that changes the lexer returns the new state; \<open>None\<close> is a call that does not return.
\<close>

record ('l, 'b) lexer_ops =
  NewLexer :: "string \<Rightarrow> string + 'l"
  AtEOF :: "'l \<Rightarrow> bool"
  Block :: "'l \<Rightarrow> (('b option \<times> core_Position) \<times> 'l) option"
  EndFunc :: "'b \<Rightarrow> 'l \<Rightarrow> ((string \<times> string \<times> bool) \<times> 'l) option"
  Position :: "'l \<Rightarrow> core_Position"

text \<open>
  The \<^verbatim>\<open>for\<close> loop of \<^verbatim>\<open>parseFile\<close>. The variable \<^verbatim>\<open>block\<close> is \<^verbatim>\<open>nil\<close> whenever a round
  starts, so every round asks the lexer for the next block.
\<close>

partial_function (option) parseFile_loop ::
  "('l, 'b) lexer_ops \<Rightarrow> string \<Rightarrow> 'l \<Rightarrow> file_output \<Rightarrow> file_output option" where
  "parseFile_loop ops uri l out =
     (if AtEOF ops l then Some out
      else
        (case Block ops l of
           None \<Rightarrow> None
         | Some ((None, pos), l) \<Rightarrow> Some out
         | Some ((Some block, pos), l) \<Rightarrow>
             (case EndFunc ops block l of
                None \<Rightarrow> None
              | Some ((raw, data, ok), l) \<Rightarrow>
                  if \<not> ok then
                    Some (out\<lparr>reported := reported out @
                            [NewLocaleError uri [] (Line pos) ErrNotFoundEndFlag]\<rparr>)
                  else if length raw = 0 then parseFile_loop ops uri l out
                  else parseFile_loop ops uri l
                         (out\<lparr>sent := sent out @
                            [\<lparr>File = uri, Range = \<lparr>Start = pos, End = Position ops l\<rparr>,
                              Data = data, Raw = raw\<rparr>]\<rparr>))))"

declare parseFile_loop.simps [code]

text \<open>
  \<^verbatim>\<open>parseFile\<close>; \<open>read\<close> is what \<^verbatim>\<open>uri.ReadAll(o.encoding)\<close> returned, an error or the
  bytes of the file.
\<close>

definition parseFile ::
  "('l, 'b) lexer_ops \<Rightarrow> string \<Rightarrow> string + string \<Rightarrow> file_output option" where
  "parseFile ops uri read =
     (case read of
        Inl err \<Rightarrow> Some \<lparr>sent = [], reported = [WithError uri [] 0 err]\<rparr>
      | Inr data \<Rightarrow>
          (case NewLexer ops data of
             Inl err \<Rightarrow> Some \<lparr>sent = [], reported = [WithError uri [] 0 err]\<rparr>
           | Inr l \<Rightarrow> parseFile_loop ops uri l \<lparr>sent = [], reported = []\<rparr>))"

subsection \<open>A lexer with two blockers\<close>

text \<open>
  Modelled from the spec: the methods of \<^verbatim>\<open>Lexer\<close> are not among the embedded files.
  "State: \<^verbatim>\<open>(data, pos, line)\<close>"; "\<^verbatim>\<open>match(literal)\<close>: if the bytes at \<^verbatim>\<open>pos\<close> equal
  \<^verbatim>\<open>literal\<close>, advance \<^verbatim>\<open>pos\<close> by its length and return true; else false";
  "\<^verbatim>\<open>line_remainder()\<close>: bytes from \<^verbatim>\<open>pos\<close> to the next newline (not inclusive), without
  advancing". The line of a position is the number of newlines before it (lines are
  "0-indexed internally").
\<close>

record Lexer =
  lex_data :: string
  pos :: nat

definition Lexer_AtEOF :: "Lexer \<Rightarrow> bool" where
  "Lexer_AtEOF l = (pos l \<ge> length (lex_data l))"

definition Lexer_match :: "Lexer \<Rightarrow> string \<Rightarrow> bool \<times> Lexer" where
  "Lexer_match l word =
     (if take (length word) (drop (pos l) (lex_data l)) = word
      then (True, l\<lparr>pos := pos l + length word\<rparr>) else (False, l))"

definition Lexer_line :: "Lexer \<Rightarrow> string" where
  "Lexer_line l = takeWhile (\<lambda>c. c \<noteq> CHR 0x0A) (drop (pos l) (lex_data l))"

definition Lexer_Position :: "Lexer \<Rightarrow> core_Position" where
  "Lexer_Position l =
     (let seen = take (pos l) (lex_data l)
      in \<lparr>Line = length (filter (\<lambda>c. c = CHR 0x0A) seen),
          Column = length (takeWhile (\<lambda>c. c \<noteq> CHR 0x0A) (rev seen)),
          Offset = pos l\<rparr>)"

text \<open>
  The blocker of PHP's heredoc and nowdoc, from \<^verbatim>\<open>php.go\<close>. \<open>None\<close> is the panic of the
  slice expression \<^verbatim>\<open>token[1 : len(token)-1]\<close> on a token that is a single quote.
  \<^verbatim>\<open>EndFunc\<close> there returns no text, only whether the end was found.
\<close>

record phpDocBlock =
  token1 :: string
  token2 :: string
  doctype :: nat

definition phpHerodoc :: nat where "phpHerodoc = 1"
definition phpNowdoc :: nat where "phpNowdoc = 2"

definition newPHPDocBlock :: phpDocBlock where
  "newPHPDocBlock = \<lparr>token1 = [], token2 = [], doctype = phpHerodoc\<rparr>"

definition phpDocBlock_BeginFunc ::
  "phpDocBlock \<Rightarrow> Lexer \<Rightarrow> (bool \<times> phpDocBlock \<times> Lexer) option" where
  "phpDocBlock_BeginFunc b l =
     (case Lexer_match l ''<<<'' of
        (False, l) \<Rightarrow> Some (False, b, l)
      | (True, l) \<Rightarrow>
          (let token = Lexer_line l in
           if length token = 0 then Some (False, b, l\<lparr>pos := pos l - 3\<rparr>)
           else if token ! 0 = CHR 0x27 \<and> token ! (length token - 1) = CHR 0x27 then
             (if length token - 1 < 1 then None
              else
                (let token = take (length token - 1 - 1) (drop 1 token)
                 in Some (True, b\<lparr>doctype := phpNowdoc,
                                   token1 := [CHR 0x0A] @ token @ [CHR 0x0A],
                                   token2 := [CHR 0x0A] @ token @ '';'' @ [CHR 0x0A]\<rparr>, l)))
           else Some (True, b\<lparr>token1 := [CHR 0x0A] @ token @ [CHR 0x0A],
                               token2 := [CHR 0x0A] @ token @ '';'' @ [CHR 0x0A]\<rparr>, l)))"

function phpDocBlock_EndFunc :: "phpDocBlock \<Rightarrow> Lexer \<Rightarrow> bool \<times> Lexer" where
  "phpDocBlock_EndFunc b l =
     (if Lexer_AtEOF l then (False, l)
      else if fst (Lexer_match l (token1 b)) then (True, snd (Lexer_match l (token1 b)))
      else if fst (Lexer_match l (token2 b)) then (True, snd (Lexer_match l (token2 b)))
      else phpDocBlock_EndFunc b (l\<lparr>pos := pos l + 1\<rparr>))"
  by pat_completeness auto
termination
  by (relation "measure (\<lambda>(b, l). length (lex_data l) - pos l)")
     (auto simp: Lexer_AtEOF_def)

text \<open>
  Modelled from the spec: a block comment is not among the embedded blockers. "Block
  comment: begins with open marker (\<^verbatim>\<open>/*\<close>), ends with close marker (\<^verbatim>\<open>*/\<close>); the \<^verbatim>\<open>data\<close>
  strips leading \<^verbatim>\<open>*\<close> adornment from interior lines by a fixed rule (trim leading
  whitespace, then a single leading \<^verbatim>\<open>*\<close> if present, then one optional space)";
  \<^verbatim>\<open>end\<close> returns "the raw content, the content with comment markers stripped, and
  whether a terminator was found before EOF".
\<close>

function find_end :: "string \<Rightarrow> Lexer \<Rightarrow> bool \<times> Lexer" where
  "find_end word l =
     (if Lexer_AtEOF l then (False, l)
      else if fst (Lexer_match l word) then (True, snd (Lexer_match l word))
      else find_end word (l\<lparr>pos := pos l + 1\<rparr>))"
  by pat_completeness auto
termination
  by (relation "measure (\<lambda>(w, l). length (lex_data l) - pos l)")
     (auto simp: Lexer_AtEOF_def)

definition strip_line :: "string \<Rightarrow> string" where
  "strip_line s =
     (let s1 = dropWhile is_space s;
          s2 = (case s1 of [] \<Rightarrow> s1 | c # r \<Rightarrow> if c = CHR ''*'' then r else s1)
      in case s2 of [] \<Rightarrow> s2 | c # r \<Rightarrow> if c = CHR '' '' then r else s2)"

fun join_lines :: "string list \<Rightarrow> string" where
  "join_lines [] = []"
| "join_lines [s] = s"
| "join_lines (s # ss) = s @ [CHR 0x0A] @ join_lines ss"

definition strip_comment :: "string \<Rightarrow> string" where
  "strip_comment s = join_lines (map strip_line (SplitN s (CHR 0x0A) (Suc (length s))))"

datatype Blocker = PHPDoc | Comment

record lexer_state =
  lexer :: Lexer
  php :: phpDocBlock

definition comment_EndFunc :: "Lexer \<Rightarrow> (string \<times> string \<times> bool) \<times> Lexer" where
  "comment_EndFunc l =
     (case find_end ''*/'' l of
        (False, l') \<Rightarrow> (([], [], False), l')
      | (True, l') \<Rightarrow>
          (let body = take (pos l' - pos l) (drop (pos l) (lex_data l))
           in ((''/*'' @ body, strip_comment (take (length body - 2) body), True), l')))"

text \<open>
  Modelled from the spec: "\<^verbatim>\<open>find_next_block()\<close>: scan forward, at each position asking
  each Blocker's \<^verbatim>\<open>begin\<close> in registration order; the first whose \<^verbatim>\<open>begin\<close> returns true
  wins. Returns the Blocker and the position at which \<^verbatim>\<open>begin\<close> returned true." The
  heredoc blocker is registered first, the block comment second.
\<close>

lemma phpDocBlock_BeginFunc_pos:
  "phpDocBlock_BeginFunc b l = Some (False, b', l') \<Longrightarrow> l' = l"
  by (auto simp: phpDocBlock_BeginFunc_def Lexer_match_def Let_def split: if_splits)

function Lexer_Block ::
  "lexer_state \<Rightarrow> ((Blocker option \<times> core_Position) \<times> lexer_state) option" where
  "Lexer_Block st =
     (if Lexer_AtEOF (lexer st) then Some ((None, Lexer_Position (lexer st)), st)
      else
        (case phpDocBlock_BeginFunc (php st) (lexer st) of
           None \<Rightarrow> None
         | Some (True, b, l) \<Rightarrow>
             Some ((Some PHPDoc, Lexer_Position (lexer st)), \<lparr>lexer = l, php = b\<rparr>)
         | Some (False, b, l) \<Rightarrow>
             (case Lexer_match l ''/*'' of
                (True, l') \<Rightarrow>
                  Some ((Some Comment, Lexer_Position (lexer st)), \<lparr>lexer = l', php = b\<rparr>)
              | (False, l') \<Rightarrow> Lexer_Block \<lparr>lexer = l'\<lparr>pos := pos l' + 1\<rparr>, php = b\<rparr>)))"
  by pat_completeness auto
termination
proof (relation "measure (\<lambda>st. length (lex_data (lexer st)) - pos (lexer st))")
qed (auto simp: Lexer_AtEOF_def Lexer_match_def dest!: phpDocBlock_BeginFunc_pos
      split: if_splits)

definition Blocker_EndFunc ::
  "Blocker \<Rightarrow> lexer_state \<Rightarrow> ((string \<times> string \<times> bool) \<times> lexer_state) option" where
  "Blocker_EndFunc b st =
     (case b of
        PHPDoc \<Rightarrow>
          (case phpDocBlock_EndFunc (php st) (lexer st) of
             (ok, l) \<Rightarrow> Some (([], [], ok), st\<lparr>lexer := l\<rparr>))
      | Comment \<Rightarrow>
          (case comment_EndFunc (lexer st) of (r, l) \<Rightarrow> Some (r, st\<lparr>lexer := l\<rparr>)))"

definition php_lexer :: "(lexer_state, Blocker) lexer_ops" where
  "php_lexer = \<lparr>NewLexer = (\<lambda>data. Inr \<lparr>lexer = \<lparr>lex_data = data, pos = 0\<rparr>, php = newPHPDocBlock\<rparr>),
     AtEOF = (\<lambda>st. Lexer_AtEOF (lexer st)),
     Block = Lexer_Block,
     EndFunc = Blocker_EndFunc,
     Position = (\<lambda>st. Lexer_Position (lexer st))\<rparr>"


subsection \<open>The blocks a lexer recognizes\<close>

text \<open>
  \<open>recognized ops l rs l'\<close>: from the state \<open>l\<close> the lexer finds one block after the
  other, each with its end, and is then in the state \<open>l'\<close>; \<open>rs\<close> lists, for each
  block in order, where it opens, what \<^verbatim>\<open>EndFunc\<close> returned as \<^verbatim>\<open>raw\<close> and \<^verbatim>\<open>data\<close>, and the
  position behind it.
\<close>

inductive recognized ::
  "('l, 'b) lexer_ops \<Rightarrow> 'l \<Rightarrow> (core_Position \<times> string \<times> string \<times> core_Position) list
     \<Rightarrow> 'l \<Rightarrow> bool"
  for ops :: "('l, 'b) lexer_ops" where
  none: "recognized ops l [] l"
| block: "\<not> AtEOF ops l \<Longrightarrow> Block ops l = Some ((Some b, bpos), l1) \<Longrightarrow>
     EndFunc ops b l1 = Some ((raw, data, True), l2) \<Longrightarrow> recognized ops l2 rs l' \<Longrightarrow>
     recognized ops l ((bpos, raw, data, Position ops l2) # rs) l'"

text \<open>The blocks sent for a list of recognized blocks: those with a non-empty \<^verbatim>\<open>raw\<close>.\<close>

definition emitted ::
  "string \<Rightarrow> (core_Position \<times> string \<times> string \<times> core_Position) list \<Rightarrow> spec_Block list" where
  "emitted uri rs =
     map (\<lambda>(bpos, raw, data, end_pos).
            \<lparr>File = uri, Range = \<lparr>Start = bpos, End = end_pos\<rparr>, Data = data, Raw = raw\<rparr>)
       (filter (\<lambda>(bpos, raw, data, end_pos). raw \<noteq> []) rs)"

text \<open>Two files for the lexer above, and its state at a byte of a file.\<close>

definition lexer_at :: "string \<Rightarrow> nat \<Rightarrow> phpDocBlock \<Rightarrow> lexer_state" where
  "lexer_at d n b = \<lparr>lexer = \<lparr>lex_data = d, pos = n\<rparr>, php = b\<rparr>"

definition eot_block :: phpDocBlock where
  "eot_block = \<lparr>token1 = [CHR 0x0A] @ ''EOT'' @ [CHR 0x0A],
     token2 = [CHR 0x0A] @ ''EOT;'' @ [CHR 0x0A], doctype = phpHerodoc\<rparr>"

definition unterminated_file :: string where
  "unterminated_file = ''/* a */'' @ [CHR 0x0A] @ ''$x = <<<EOT'' @ [CHR 0x0A] @ ''abc''"

definition terminated_file :: string where
  "terminated_file =
     ''<<<EOT'' @ [CHR 0x0A] @ ''abc'' @ [CHR 0x0A] @ ''EOT'' @ [CHR 0x0A] @ ''/* c */''"

section \<open>Properties of the document builder\<close>

lemma slot_set_slot: "slot r (set_slot r o' p) = Some o'"
  by (cases r) simp_all

lemma slot_set_slot_other: "r' \<noteq> r \<Longrightarrow> slot r' (set_slot r o' p) = slot r' p"
  by (cases r; cases r') simp_all

lemma set_slot_set_slot: "set_slot r o2 (set_slot r o1 p) = set_slot r o2 p"
  by (cases r) simp_all

lemma slot_emptyPathItem: "slot r emptyPathItem = None"
  by (cases r) (simp_all add: emptyPathItem_def)

lemma operation_at_installed:
  "operation_at (doc\<lparr>Paths := Some (installed_paths doc key)\<rparr>) k r = operation_at doc k r"
  by (simp add: operation_at_def installed_paths_def Let_def slot_emptyPathItem
      split: option.splits)

text \<open>
  \<^verbatim>\<open>getOperation\<close> on an \<^verbatim>\<open>API\<close> of three fields, by the slot its method selects: the
  eight cases of the \<^verbatim>\<open>switch\<close> differ in the slot only.
\<close>

lemma getOperation_split3:
  assumes "SplitN (API_API api) (CHR '' '') 3 = [m0, key, s]"
  shows "getOperation up doc api =
    (let paths1 = installed_paths doc key;
         item = the (paths1 key)
     in case method_slot (up m0) of
          None \<Rightarrow> (doc\<lparr>Paths := Some paths1\<rparr>, Inl ErrInvalidMethod)
        | Some r \<Rightarrow>
            if slot r item \<noteq> None
            then (doc\<lparr>Paths := Some paths1\<rparr>, Inl (ErrDuplicateRoute (route_name r)))
            else (doc\<lparr>Paths := Some (paths1(key \<mapsto> set_slot r emptyOperation item))\<rparr>,
                  Inr (key, r)))"
proof -
  define ps where "ps = (case Paths doc of None \<Rightarrow> Map.empty | Some m \<Rightarrow> m)"
  show ?thesis
  proof (cases "ps key")
    case None
    then show ?thesis
      using assms unfolding getOperation_def installed_paths_def ps_def [symmetric]
      by (simp add: method_slot_def Let_def)
  next
    case (Some p)
    then show ?thesis
      using assms unfolding getOperation_def installed_paths_def ps_def [symmetric]
      by (simp add: method_slot_def Let_def)
  qed
qed

lemma slot_installed:
  "slot r (the (installed_paths doc key key)) = operation_at doc key r"
  by (simp add: operation_at_def installed_paths_def Let_def slot_emptyPathItem
      split: option.splits)

lemma installed_unchanged:
  "operation_at doc key r = Some o' \<Longrightarrow> doc\<lparr>Paths := Some (installed_paths doc key)\<rparr> = doc"
  by (simp add: operation_at_def installed_paths_def Let_def split: option.splits)

lemma Doc_parseAPI_malformed:
  "length (SplitN (API_API api) (CHR '' '') 3) \<noteq> 3 \<Longrightarrow>
   Doc_parseAPI up doc api =
     (doc\<lparr>Paths := Some (case Paths doc of None \<Rightarrow> Map.empty | Some m \<Rightarrow> m)\<rparr>,
      Some ErrMissingArgs)"
  by (simp add: Doc_parseAPI_def getOperation_def Let_def)

lemma Doc_parseAPI_invalid:
  assumes "SplitN (API_API api) (CHR '' '') 3 = [m0, key, s]"
    and "method_slot (up m0) = None"
  shows "Doc_parseAPI up doc api =
     (doc\<lparr>Paths := Some (installed_paths doc key)\<rparr>, Some ErrInvalidMethod)"
  using assms(2) by (simp add: Doc_parseAPI_def getOperation_split3 [OF assms(1)] Let_def)

lemma Doc_parseAPI_occupied:
  assumes "SplitN (API_API api) (CHR '' '') 3 = [m0, key, s]"
    and "method_slot (up m0) = Some r"
    and "operation_at doc key r = Some o'"
  shows "Doc_parseAPI up doc api = (doc, Some (ErrDuplicateRoute (route_name r)))"
  using assms(2,3)
  by (simp add: Doc_parseAPI_def getOperation_split3 [OF assms(1)] Let_def slot_installed
      installed_unchanged)

lemma Doc_parseAPI_free:
  assumes "SplitN (API_API api) (CHR '' '') 3 = [m0, key, s]"
    and "method_slot (up m0) = Some r"
    and "operation_at doc key r = None"
  shows "Doc_parseAPI up doc api =
     (doc\<lparr>Paths := Some ((installed_paths doc key)
         (key \<mapsto> set_slot r (operation_of api) (the (installed_paths doc key key))))\<rparr>, None)"
  using assms(2,3)
  by (simp add: Doc_parseAPI_def getOperation_split3 [OF assms(1)] Let_def slot_installed
      update_operation_def operation_at_def slot_set_slot set_slot_set_slot parseParameter_def
      emptyOperation_def operation_of_def)

lemma operation_at_install:
  "operation_at (doc\<lparr>Paths := Some ((installed_paths doc k)
       (k \<mapsto> set_slot r' op (the (installed_paths doc k k))))\<rparr>) key r =
     (if key = k \<and> r = r' then Some op else operation_at doc key r)"
proof (cases "key = k")
  case True
  then show ?thesis
    using slot_installed [of r doc k]
    by (simp add: operation_at_def slot_set_slot slot_set_slot_other)
next
  case False
  then show ?thesis
    using operation_at_installed [of doc k key r] by (simp add: operation_at_def)
qed

lemma operation_at_missing_args:
  "operation_at (doc\<lparr>Paths := Some (case Paths doc of None \<Rightarrow> Map.empty | Some m \<Rightarrow> m)\<rparr>) key r
     = operation_at doc key r"
  by (simp add: operation_at_def split: option.splits)

lemma split3_cases:
  obtains "length (SplitN s sep 3) \<noteq> 3" | m0 k rest where "SplitN s sep 3 = [m0, k, rest]"
proof (cases "length (SplitN s sep 3) = 3")
  case True
  then obtain m0 k rest where "SplitN s sep 3 = [m0, k, rest]"
    by (auto simp: length_Suc_conv numeral_3_eq_3)
  then show ?thesis using that by blast
next
  case False
  then show ?thesis using that by blast
qed

text \<open>An occupied slot survives every later add, whatever is added.\<close>

lemma Doc_parseAPI_keeps:
  assumes "operation_at doc key r = Some op"
  shows "operation_at (fst (Doc_parseAPI up doc api)) key r = Some op"
proof (cases rule: split3_cases [of "API_API api" "CHR '' ''"])
  case 1
  then show ?thesis
    using assms by (simp add: Doc_parseAPI_malformed operation_at_missing_args)
next
  case (2 m0 k rest)
  show ?thesis
  proof (cases "method_slot (up m0)")
    case None
    then show ?thesis
      using assms by (simp add: Doc_parseAPI_invalid [where up = up, OF 2] operation_at_installed)
  next
    case (Some r')
    show ?thesis
    proof (cases "operation_at doc k r'")
      case None
      then have "\<not> (key = k \<and> r = r')" using assms by auto
      then show ?thesis
        using assms
        by (auto simp: Doc_parseAPI_free [where up = up, OF 2 Some None] operation_at_install)
    next
      case (Some op')
      then show ?thesis
        using assms \<open>method_slot (up m0) = Some r'\<close>
        by (simp add: Doc_parseAPI_occupied [where up = up, OF 2])
    qed
  qed
qed

lemma add_all_keeps:
  "operation_at doc key r = Some op \<Longrightarrow> operation_at (add_all up doc apis) key r = Some op"
  unfolding add_all_def
  by (induction apis arbitrary: doc) (simp_all add: Doc_parseAPI_keeps)

text \<open>
  C1. A path and a method hold at most one API. When an API is added whose slot (its
  path, the slot of its upper-cased method) is free, the add succeeds and installs its
  operation; after any further adds, an add of an API with the same path and method
  fails with the duplicate-route error, leaves the document as it was, and the slot
  still holds the operation of the first.
\<close>

theorem route_first_wins:
  assumes first: "SplitN (API_API a1) (CHR '' '') 3 = [m1, key, s1]"
    and later: "SplitN (API_API a2) (CHR '' '') 3 = [m2, key, s2]"
    and same: "method_slot (up m1) = Some r" "up m2 = up m1"
    and free: "operation_at doc key r = None"
  shows "snd (Doc_parseAPI up doc a1) = None
     \<and> operation_at (fst (Doc_parseAPI up doc a1)) key r = Some (operation_of a1)
     \<and> (let d = add_all up (fst (Doc_parseAPI up doc a1)) between
        in Doc_parseAPI up d a2 = (d, Some (ErrDuplicateRoute (route_name r)))
           \<and> operation_at d key r = Some (operation_of a1))"
proof -
  let ?d1 = "fst (Doc_parseAPI up doc a1)"
  have e1: "snd (Doc_parseAPI up doc a1) = None"
    by (simp add: Doc_parseAPI_free [where up = up, OF first same(1) free])
  have o1: "operation_at ?d1 key r = Some (operation_of a1)"
    by (simp add: Doc_parseAPI_free [where up = up, OF first same(1) free] operation_at_install)
  have o2: "operation_at (add_all up ?d1 between) key r = Some (operation_of a1)"
    by (rule add_all_keeps [OF o1])
  have m2: "method_slot (up m2) = Some r" using same by simp
  have dup: "Doc_parseAPI up (add_all up ?d1 between) a2
      = (add_all up ?d1 between, Some (ErrDuplicateRoute (route_name r)))"
    by (rule Doc_parseAPI_occupied [where up = up, OF later m2 o2])
  show ?thesis using e1 o1 o2 dup by (simp add: Let_def)
qed



theorem route_first_wins_witness:
  "SplitN (API_API (mk_API ''GET /x one'' [''a''])) (CHR '' '') 3 = [''GET'', ''/x'', ''one'']
   \<and> SplitN (API_API (mk_API ''get /x two'' [])) (CHR '' '') 3 = [''get'', ''/x'', ''two'']
   \<and> method_slot (ascii_upper ''GET'') = Some MethodGet
   \<and> ascii_upper ''get'' = ascii_upper ''GET''
   \<and> operation_at \<lparr>Paths = None\<rparr> ''/x'' MethodGet = None
   \<and> snd (Doc_parseAPI ascii_upper \<lparr>Paths = None\<rparr> (mk_API ''GET /x one'' [''a''])) = None
   \<and> operation_at (fst (Doc_parseAPI ascii_upper \<lparr>Paths = None\<rparr> (mk_API ''GET /x one'' [''a''])))
         ''/x'' MethodGet = Some (operation_of (mk_API ''GET /x one'' [''a'']))
   \<and> (let d = add_all ascii_upper
                 (fst (Doc_parseAPI ascii_upper \<lparr>Paths = None\<rparr> (mk_API ''GET /x one'' [''a''])))
                 [mk_API ''POST /x p'' [], mk_API ''FOO /y q'' []]
      in Doc_parseAPI ascii_upper d (mk_API ''get /x two'' [])
           = (d, Some (ErrDuplicateRoute (route_name MethodGet)))
         \<and> operation_at d ''/x'' MethodGet = Some (operation_of (mk_API ''GET /x one'' [''a''])))"
proof -
  have h1: "SplitN (API_API (mk_API ''GET /x one'' [''a''])) (CHR '' '') 3
      = [''GET'', ''/x'', ''one'']"
    by code_simp
  have h2: "SplitN (API_API (mk_API ''get /x two'' [])) (CHR '' '') 3
      = [''get'', ''/x'', ''two'']"
    by code_simp
  have h3: "method_slot (ascii_upper ''GET'') = Some MethodGet" by code_simp
  have h4: "ascii_upper ''get'' = ascii_upper ''GET''" by code_simp
  have h5: "operation_at \<lparr>Paths = None\<rparr> ''/x'' MethodGet = None"
    by (simp add: operation_at_def)
  note inst = route_first_wins [where up = ascii_upper
      and between = "[mk_API ''POST /x p'' [], mk_API ''FOO /y q'' []]", OF h1 h2 h3 h4 h5]
  from h1 h2 h3 h4 h5 inst show ?thesis by blast
qed

text \<open>
  C9. When the add of an API fails because its method is none of the eight, and its
  path was not yet in the document, the document has changed all the same: the paths
  map now holds an empty PathItem, one with no operation in any slot, under that path.
\<close>

theorem failed_add_leaves_path_item:
  assumes "SplitN (API_API a) (CHR '' '') 3 = [m, key, s]"
    and "method_slot (up m) = None"
    and "path_item doc key = None"
  shows "snd (Doc_parseAPI up doc a) = Some ErrInvalidMethod
     \<and> path_item (fst (Doc_parseAPI up doc a)) key = Some emptyPathItem
     \<and> fst (Doc_parseAPI up doc a) \<noteq> doc
     \<and> (\<forall>r. slot r emptyPathItem = None)
     \<and> getOperation up doc a = (fst (Doc_parseAPI up doc a), Inl ErrInvalidMethod)"
proof -
  have ip: "installed_paths doc key key = Some emptyPathItem"
    using assms(3) by (simp add: installed_paths_def path_item_def Let_def split: option.splits)
  have r: "Doc_parseAPI up doc a = (doc\<lparr>Paths := Some (installed_paths doc key)\<rparr>, Some ErrInvalidMethod)"
    by (rule Doc_parseAPI_invalid [where up = up, OF assms(1,2)])
  have g: "getOperation up doc a = (doc\<lparr>Paths := Some (installed_paths doc key)\<rparr>, Inl ErrInvalidMethod)"
    using assms(2) by (simp add: getOperation_split3 [OF assms(1)] Let_def)
  have p: "path_item (doc\<lparr>Paths := Some (installed_paths doc key)\<rparr>) key = Some emptyPathItem"
    using ip by (simp add: path_item_def)
  have ne: "doc\<lparr>Paths := Some (installed_paths doc key)\<rparr> \<noteq> doc"
    using p assms(3) by auto
  show ?thesis using r g p ne by (simp add: slot_emptyPathItem)
qed

theorem failed_add_leaves_path_item_witness:
  "SplitN (API_API (mk_API ''FOO /x hi'' [])) (CHR '' '') 3 = [''FOO'', ''/x'', ''hi'']
   \<and> method_slot (ascii_upper ''FOO'') = None
   \<and> path_item \<lparr>Paths = None\<rparr> ''/x'' = None
   \<and> snd (Doc_parseAPI ascii_upper \<lparr>Paths = None\<rparr> (mk_API ''FOO /x hi'' [])) = Some ErrInvalidMethod
   \<and> path_item (fst (Doc_parseAPI ascii_upper \<lparr>Paths = None\<rparr> (mk_API ''FOO /x hi'' []))) ''/x''
       = Some emptyPathItem
   \<and> fst (Doc_parseAPI ascii_upper \<lparr>Paths = None\<rparr> (mk_API ''FOO /x hi'' [])) \<noteq> \<lparr>Paths = None\<rparr>"
proof -
  have h1: "SplitN (API_API (mk_API ''FOO /x hi'' [])) (CHR '' '') 3 = [''FOO'', ''/x'', ''hi'']"
    by code_simp
  have h2: "method_slot (ascii_upper ''FOO'') = None" by code_simp
  have h3: "path_item \<lparr>Paths = None\<rparr> ''/x'' = None" by (simp add: path_item_def)
  note inst = failed_add_leaves_path_item [where up = ascii_upper, OF h1 h2 h3]
  from h1 h2 h3 inst show ?thesis by blast
qed

section \<open>Properties of the tag parser\<close>

text \<open>
  The \<^verbatim>\<open>@apiTags\<close> loop returns in its first round or never: \<^verbatim>\<open>index\<close> is the same in
  every round.
\<close>

lemma tags_loop_eq:
  "tags_loop tagdata data objtags =
     (if IndexByte tagdata (CHR '','') \<le> 0 then Some (objtags @ [data]) else None)"
proof (cases "IndexByte tagdata (CHR '','') \<le> 0")
  case True
  then show ?thesis by (subst tags_loop.simps) simp
next
  case False
  have "tags_loop td d a = Some y \<Longrightarrow> IndexByte td (CHR '','') \<le> 0" for td d a y
    by (rule tags_loop.raw_induct [where P = "\<lambda>td d a y. IndexByte td (CHR '','') \<le> 0"])
       (auto split: if_splits)
  then have "tags_loop tagdata data objtags = None"
    using False by (cases "tags_loop tagdata data objtags") auto
  then show ?thesis using False by simp
qed

lemma api_parseAPI_ok_rest:
  "api_parseAPI env obj ts = Some (None, obj', rest) \<Longrightarrow> rest = []"
proof (induction ts arbitrary: obj)
  case Nil
  then show ?case by simp
next
  case (Cons t ts)
  then show ?case
    by (cases "api_tag env obj t") (auto split: prod.splits option.splits)
qed

lemma api_parseAPI_append:
  "api_parseAPI env obj (xs @ ys) =
     (case api_parseAPI env obj xs of
        None \<Rightarrow> None
      | Some (Some err, obj', rest) \<Rightarrow> Some (Some err, obj', rest @ ys)
      | Some (None, obj', rest) \<Rightarrow> api_parseAPI env obj' ys)"
proof (induction xs arbitrary: obj)
  case Nil
  then show ?case by simp
next
  case (Cons t xs)
  show ?case
  proof (cases "api_tag env obj t")
    case None
    then show ?thesis by simp
  next
    case (Some r)
    obtain o1 e1 where r: "r = (o1, e1)" by (cases r)
    show ?thesis using Some r Cons.IH [of o1] by (cases e1) simp_all
  qed
qed

text \<open>A block that opens with a well-formed \<^verbatim>\<open>@api\<close> tag is parsed by \<^verbatim>\<open>api.parseAPI\<close>.\<close>

lemma parser_parseAPI_api:
  assumes "ToLower env (tag_name t) = ''@api''" and "split env (tag_data t) 3 = [m, p, s]"
  shows "parser_parseAPI env (t # ts) =
     api_parseAPI env (new_api\<lparr>api_method := ToUpper env m, path := p, summary := s\<rparr>) ts"
proof (cases "api_parseAPI env (new_api\<lparr>api_method := ToUpper env m, path := p, summary := s\<rparr>) ts")
  case None
  then show ?thesis using assms by (simp add: parser_parseAPI_def new_api_def)
next
  case (Some r)
  obtain e o1 rest where r: "r = (e, o1, rest)" by (cases r)
  show ?thesis
  proof (cases e)
    case None
    then have "rest = []" using Some r api_parseAPI_ok_rest by blast
    then show ?thesis using assms Some r None by (simp add: parser_parseAPI_def new_api_def)
  next
    case (Some err)
    then show ?thesis
      using assms \<open>api_parseAPI env _ ts = Some r\<close> r
      by (simp add: parser_parseAPI_def new_api_def)
  qed
qed

lemma api_tag_frame:
  "api_tag env obj t = Some (obj', e) \<Longrightarrow>
   api_method obj' = api_method obj \<and> path obj' = path obj \<and> summary obj' = summary obj
   \<and> request obj' = request obj"
  by (auto simp: api_tag_def Let_def split: if_splits option.splits)

lemma api_parseAPI_frame:
  "api_parseAPI env obj ts = Some (e, obj', rest) \<Longrightarrow>
   api_method obj' = api_method obj \<and> path obj' = path obj \<and> summary obj' = summary obj
   \<and> request obj' = request obj"
proof (induction ts arbitrary: obj)
  case Nil
  then show ?case by simp
next
  case (Cons t ts)
  show ?case
  proof (cases "api_tag env obj t")
    case None
    then show ?thesis using Cons.prems by simp
  next
    case (Some r)
    obtain o1 e1 where r: "r = (o1, e1)" by (cases r)
    have f: "api_method o1 = api_method obj \<and> path o1 = path obj \<and> summary o1 = summary obj
      \<and> request o1 = request obj"
      using Some r api_tag_frame by blast
    show ?thesis
    proof (cases e1)
      case None
      then have "api_parseAPI env o1 ts = Some (e, obj', rest)"
        using Cons.prems Some r by simp
      from Cons.IH [OF this] f show ?thesis by simp
    next
      case (Some err)
      then have "obj' = o1" using Cons.prems \<open>api_tag env obj t = Some r\<close> r by simp
      then show ?thesis using f by simp
    qed
  qed
qed


text \<open>
  Every call of \<^verbatim>\<open>parseRequest\<close> replaces the request body of the object by a new one
  whose content map holds the media type of the call and nothing else, whatever request
  body the object had; it returns no error and leaves no tag.
\<close>

lemma parseRequest_replaces_request:
  "api_parseRequest env obj l mimetype typ =
     (None, obj\<lparr>request := Some \<lparr>Content = Some [mimetype \<mapsto>
        \<lparr>media_Schema = Some \<lparr>Type = typ, Default = []\<rparr>\<rparr>]\<rparr>\<rparr>, [])"
  by (simp add: api_parseRequest_def request_loop_rest)

text \<open>The tags of the concrete blocks below, under \<open>ascii_env\<close>.\<close>

lemma lower_names:
  "ascii_lower ''@api'' = ''@api''"
  "ascii_lower ''@apiRequest'' = ''@apirequest''"
  "ascii_lower ''@apiDeprecated'' = ''@apideprecated''"
  "ascii_lower ''@apiGroup'' = ''@apigroup''"
  "ascii_lower ''@apiTags'' = ''@apitags''"
  "ascii_lower ''@apiVersion'' = ''@apiversion''"
  by code_simp+

lemma split_data:
  "split_fields ''GET /x s'' 3 = [''GET'', ''/x'', ''s'']"
  "split_fields ''get /x s'' 3 = [''get'', ''/x'', ''s'']"
  "split_fields ''application/json object'' 2 = [''application/json'', ''object'']"
  "split_fields ''application/xml object'' 2 = [''application/xml'', ''object'']"
  by code_simp+

lemma upper_methods:
  "ascii_upper ''GET'' = ''GET''" "ascii_upper ''get'' = ''GET''" "ascii_upper ''FOO'' = ''FOO''"
  by code_simp+


text \<open>
  C2 (the code does not do it). The claim: a tag other than \<^verbatim>\<open>@apiHeader\<close> and
  \<^verbatim>\<open>@apiParam\<close> inside an \<^verbatim>\<open>@apiRequest\<close> ends the subtree and is the next tag the outer
  parser sees. In the code the \<^verbatim>\<open>default\<close> case of \<^verbatim>\<open>parseRequest\<close> holds only the comment
  that the tag is to be pushed back: the loop reads on to the end of the block. Below,
  \<^verbatim>\<open>@api\<close> follows \<^verbatim>\<open>@apiRequest\<close>; \<^verbatim>\<open>parseRequest\<close> returns with no tag left, and the
  outer parser ends with an object whose method, path and summary were never set.
\<close>

theorem parseRequest_consumes_following_tag:
  "api_parseRequest ascii_env new_api [mk_tag ''@api'' ''GET /x s'' 2]
       ''application/json'' ''object''
     = (None, new_api\<lparr>request := Some \<lparr>Content = Some [''application/json'' \<mapsto>
          \<lparr>media_Schema = Some \<lparr>Type = ''object'', Default = []\<rparr>\<rparr>]\<rparr>\<rparr>, [])
   \<and> parser_parseAPI ascii_env
       [mk_tag ''@apiRequest'' ''application/json object'' 1, mk_tag ''@api'' ''GET /x s'' 2]
     = Some (None, new_api\<lparr>request := Some \<lparr>Content = Some [''application/json'' \<mapsto>
          \<lparr>media_Schema = Some \<lparr>Type = ''object'', Default = []\<rparr>\<rparr>]\<rparr>\<rparr>, [])"
  by (simp add: parser_parseAPI_def ascii_env_def mk_tag_def lower_names split_data
      parseRequest_replaces_request)

text \<open>
  C5 (the code does not do it). The claim: \<^verbatim>\<open>@apiTags\<close> with the data \<^verbatim>\<open>a, b ,c\<close> ends
  with the tags \<^verbatim>\<open>a\<close>, \<^verbatim>\<open>b\<close>, \<^verbatim>\<open>c\<close>. In the code the comma is searched in \<^verbatim>\<open>tag.data\<close> in
  every round, so \<^verbatim>\<open>index\<close> is \<open>1\<close> in every round and the loop never reaches its
  \<^verbatim>\<open>break\<close>: the loop, the case of the switch and the parse of a block with this tag do
  not return.
\<close>

theorem apiTags_loop_never_returns:
  "IndexByte ''a, b ,c'' (CHR '','') = 1
   \<and> tags_loop ''a, b ,c'' ''a, b ,c'' [] = None
   \<and> api_tag ascii_env new_api (mk_tag ''@apiTags'' ''a, b ,c'' 1) = None
   \<and> parser_parseAPI ascii_env
       [mk_tag ''@api'' ''GET /x s'' 1, mk_tag ''@apiTags'' ''a, b ,c'' 2] = None"
proof -
  have i: "IndexByte ''a, b ,c'' (CHR '','') = 1" by code_simp
  show ?thesis
    by (simp add: tags_loop_eq i parser_parseAPI_def ascii_env_def mk_tag_def new_api_def
        api_tag_def lower_names split_data upper_methods Let_def)
qed

text \<open>
  C10 (the code does not do it). The claim: in a block with two \<^verbatim>\<open>@apiRequest\<close> tags,
  parsing the second replaces the request body by one that holds the media type of the
  second tag alone. In the code \<^verbatim>\<open>parseRequest\<close> is entered once: its loop, which pushes
  no tag back, reads the second \<^verbatim>\<open>@apiRequest\<close> as one more tag of the subtree of the
  first, and the request body keeps the media type of the first tag alone.
\<close>

theorem second_apiRequest_not_parsed:
  "parser_parseAPI ascii_env
      [mk_tag ''@apiRequest'' ''application/json object'' 1,
       mk_tag ''@apiRequest'' ''application/xml object'' 2]
    = Some (None, new_api\<lparr>request := Some \<lparr>Content = Some [''application/json'' \<mapsto>
        \<lparr>media_Schema = Some \<lparr>Type = ''object'', Default = []\<rparr>\<rparr>]\<rparr>\<rparr>, [])"
  by (simp add: parser_parseAPI_def ascii_env_def mk_tag_def lower_names split_data
      parseRequest_replaces_request)

text \<open>
  C3, as claimed: a second \<^verbatim>\<open>@apiGroup\<close> in a block makes the parse fail with
  \<^verbatim>\<open>ErrDuplicateTag\<close>. The code tells a group that was set from one that was not by
  \<^verbatim>\<open>obj.group != ""\<close>: after an \<^verbatim>\<open>@apiGroup\<close> with no data, a second one is taken as the
  first.
\<close>

theorem second_apiGroup_after_empty_accepted:
  "parser_parseAPI ascii_env
      [mk_tag ''@api'' ''GET /x s'' 1, mk_tag ''@apiGroup'' [] 2, mk_tag ''@apiGroup'' ''g'' 3]
    = Some (None, new_api\<lparr>api_method := ''GET'', path := ''/x'', summary := ''s'',
              group := ''g''\<rparr>, [])"
  by (simp add: parser_parseAPI_def ascii_env_def mk_tag_def new_api_def api_tag_def
      lower_names split_data upper_methods Let_def)

text \<open>
  Two more blocks with a repeated tag that parse without error: the \<^verbatim>\<open>@apiDeprecated\<close>
  case sets the flag and has no check, and a second \<^verbatim>\<open>@api\<close> is read by the loop of
  \<^verbatim>\<open>api.parseAPI\<close>, whose \<^verbatim>\<open>default\<close> case holds only the comment that the tag is to be
  pushed back, so that the check in \<^verbatim>\<open>parser.parseAPI\<close> never sees it.
\<close>

lemma second_apiDeprecated_accepted:
  "parser_parseAPI ascii_env
      [mk_tag ''@api'' ''GET /x s'' 1, mk_tag ''@apiDeprecated'' ''a'' 2,
       mk_tag ''@apiDeprecated'' ''b'' 3]
    = Some (None, new_api\<lparr>api_method := ''GET'', path := ''/x'', summary := ''s'',
              deprecated := True\<rparr>, [])"
  by (simp add: parser_parseAPI_def ascii_env_def mk_tag_def new_api_def api_tag_def
      lower_names split_data upper_methods Let_def)

lemma second_api_consumed:
  "parser_parseAPI ascii_env
      [mk_tag ''@api'' ''GET /x s'' 1, mk_tag ''@api'' ''get /x s'' 2]
    = Some (None, new_api\<lparr>api_method := ''GET'', path := ''/x'', summary := ''s''\<rparr>, [])"
  by (simp add: parser_parseAPI_def ascii_env_def mk_tag_def new_api_def api_tag_def
      lower_names split_data upper_methods Let_def)

lemma api_parseAPI_append_ok:
  assumes "api_parseAPI env obj (xs @ ys) = Some (None, obj', rest)"
  obtains o1 where "api_parseAPI env obj xs = Some (None, o1, [])"
    and "api_parseAPI env o1 ys = Some (None, obj', rest)"
proof (cases "api_parseAPI env obj xs")
  case None
  then show ?thesis using assms by (simp add: api_parseAPI_append)
next
  case (Some r)
  obtain e o1 l where r: "r = (e, o1, l)" by (cases r)
  show ?thesis
  proof (cases e)
    case None
    then have "l = []" using Some r api_parseAPI_ok_rest by blast
    then show ?thesis using that [of o1] assms Some r None by (simp add: api_parseAPI_append)
  next
    case (Some err)
    then show ?thesis
      using assms \<open>api_parseAPI env obj xs = Some r\<close> r by (simp add: api_parseAPI_append)
  qed
qed

lemma api_tag_keeps_singletons:
  assumes "api_tag env obj t = Some (obj', e)"
  shows "(group obj \<noteq> [] \<longrightarrow> group obj' \<noteq> [])
     \<and> (tags obj \<noteq> [] \<longrightarrow> tags obj' \<noteq> [])
     \<and> (version obj \<noteq> [] \<longrightarrow> version obj' \<noteq> [])"
  using assms
  by (auto simp: api_tag_def Let_def tags_loop_eq split: if_splits option.splits)

lemma api_parseAPI_keeps_singletons:
  "api_parseAPI env obj ts = Some (e, obj', rest) \<Longrightarrow>
   (group obj \<noteq> [] \<longrightarrow> group obj' \<noteq> [])
     \<and> (tags obj \<noteq> [] \<longrightarrow> tags obj' \<noteq> [])
     \<and> (version obj \<noteq> [] \<longrightarrow> version obj' \<noteq> [])"
proof (induction ts arbitrary: obj)
  case Nil
  then show ?case by simp
next
  case (Cons t ts)
  show ?case
  proof (cases "api_tag env obj t")
    case None
    then show ?thesis using Cons.prems by simp
  next
    case (Some r)
    obtain o1 e1 where r: "r = (o1, e1)" by (cases r)
    note k = api_tag_keeps_singletons [of env obj t o1 e1]
    show ?thesis
    proof (cases e1)
      case None
      then have "api_parseAPI env o1 ts = Some (e, obj', rest)"
        using Cons.prems Some r by simp
      from Cons.IH [OF this] k Some r show ?thesis by simp
    next
      case (Some err)
      then have "obj' = o1" using Cons.prems \<open>api_tag env obj t = Some r\<close> r by simp
      then show ?thesis using k \<open>api_tag env obj t = Some r\<close> r by simp
    qed
  qed
qed

lemma api_tag_sets_singleton:
  assumes "api_tag env obj t = Some (obj', None)"
  shows "(ToLower env (tag_name t) = ''@apigroup'' \<and> tag_data t \<noteq> [] \<longrightarrow> group obj' \<noteq> [])
     \<and> (ToLower env (tag_name t) = ''@apitags'' \<longrightarrow> tags obj' \<noteq> [])
     \<and> (ToLower env (tag_name t) = ''@apiversion'' \<and> tag_data t \<noteq> [] \<longrightarrow> version obj' \<noteq> [])"
  using assms
  by (auto simp: api_tag_def Let_def tags_loop_eq split: if_splits option.splits)

lemma api_tag_duplicate:
  "ToLower env (tag_name t) = ''@apigroup'' \<Longrightarrow> group obj \<noteq> [] \<Longrightarrow>
     api_tag env obj t = Some (obj, Some (syntaxError t (Sprintf ErrDuplicateTag [''@apiGroup''])))"
  "ToLower env (tag_name t) = ''@apitags'' \<Longrightarrow> tags obj \<noteq> [] \<Longrightarrow>
     api_tag env obj t = Some (obj, Some (syntaxError t (Sprintf ErrDuplicateTag [''@apiTags''])))"
  "ToLower env (tag_name t) = ''@apiversion'' \<Longrightarrow> version obj \<noteq> [] \<Longrightarrow>
     api_tag env obj t = Some (obj, Some (syntaxError t (Sprintf ErrDuplicateTag [''@apiVersion''])))"
  by (simp_all add: api_tag_def)

text \<open>
  C3, amended. In a block that opens with a well-formed \<^verbatim>\<open>@api\<close> tag, let the tags up to
  and including a first \<^verbatim>\<open>@apiGroup\<close>, \<^verbatim>\<open>@apiTags\<close> or \<^verbatim>\<open>@apiVersion\<close> tag and those
  between it and a second tag of the same name parse without error, the first
  \<^verbatim>\<open>@apiGroup\<close> or \<^verbatim>\<open>@apiVersion\<close> having data. Then the parse of the block fails at the
  second tag with \<^verbatim>\<open>ErrDuplicateTag\<close> naming that tag, and the tags behind it are not
  read.
\<close>

theorem duplicate_singleton_tag:
  assumes open_tag: "ToLower env (tag_name t0) = ''@api''" "split env (tag_data t0) 3 = [m, p, s]"
    and prefix: "parser_parseAPI env (t0 # pre @ t1 # mid) = Some (None, obj, [])"
    and first: "ToLower env (tag_name t1) = n"
    and second: "ToLower env (tag_name t2) = n"
    and singleton: "(n, shown) \<in> {(''@apigroup'', ''@apiGroup''), (''@apitags'', ''@apiTags''),
        (''@apiversion'', ''@apiVersion'')}"
    and data: "n = ''@apitags'' \<or> tag_data t1 \<noteq> []"
  shows "parser_parseAPI env (t0 # pre @ t1 # mid @ t2 # rest) =
     Some (Some (syntaxError t2 (Sprintf ErrDuplicateTag [shown])), obj, rest)"
proof -
  let ?o0 = "new_api\<lparr>api_method := ToUpper env m, path := p, summary := s\<rparr>"
  have pre_ok: "api_parseAPI env ?o0 (pre @ [t1] @ mid) = Some (None, obj, [])"
    using prefix by (simp add: parser_parseAPI_api [OF open_tag])
  obtain o1 where o1: "api_parseAPI env ?o0 pre = Some (None, o1, [])"
    and r1: "api_parseAPI env o1 ([t1] @ mid) = Some (None, obj, [])"
    using pre_ok by (rule api_parseAPI_append_ok)
  obtain o2 where o2: "api_parseAPI env o1 [t1] = Some (None, o2, [])"
    and r2: "api_parseAPI env o2 mid = Some (None, obj, [])"
    using r1 by (rule api_parseAPI_append_ok)
  have t1: "api_tag env o1 t1 = Some (o2, None)"
    using o2 by (auto split: option.splits)
  note set1 = api_tag_sets_singleton [OF t1]
  note keep = api_parseAPI_keeps_singletons [OF r2]
  have dup: "api_tag env obj t2 =
      Some (obj, Some (syntaxError t2 (Sprintf ErrDuplicateTag [shown])))"
    using singleton first second data set1 keep by (auto simp: api_tag_duplicate)
  have "api_parseAPI env ?o0 ((pre @ [t1] @ mid) @ t2 # rest) =
      Some (Some (syntaxError t2 (Sprintf ErrDuplicateTag [shown])), obj, rest)"
    by (simp only: api_parseAPI_append [of env ?o0 "pre @ [t1] @ mid"] pre_ok)
       (simp add: dup)
  then show ?thesis by (simp add: parser_parseAPI_api [OF open_tag])
qed

theorem duplicate_singleton_tag_witness:
  "ToLower ascii_env (tag_name (mk_tag ''@api'' ''get /x s'' 1)) = ''@api''
   \<and> split ascii_env (tag_data (mk_tag ''@api'' ''get /x s'' 1)) 3 = [''get'', ''/x'', ''s'']
   \<and> parser_parseAPI ascii_env (mk_tag ''@api'' ''get /x s'' 1 # [mk_tag ''@apiDeprecated'' [] 2]
         @ mk_tag ''@apiGroup'' ''g'' 3 # [mk_tag ''@apiVersion'' ''1.0.0'' 4])
       = Some (None, new_api\<lparr>api_method := ''GET'', path := ''/x'', summary := ''s'',
                 group := ''g'', version := ''1.0.0'', deprecated := True\<rparr>, [])
   \<and> ToLower ascii_env (tag_name (mk_tag ''@apiGroup'' ''g'' 3)) = ''@apigroup''
   \<and> ToLower ascii_env (tag_name (mk_tag ''@apigroup'' ''h'' 5)) = ''@apigroup''
   \<and> tag_data (mk_tag ''@apiGroup'' ''g'' 3) \<noteq> []
   \<and> parser_parseAPI ascii_env (mk_tag ''@api'' ''get /x s'' 1 # [mk_tag ''@apiDeprecated'' [] 2]
         @ mk_tag ''@apiGroup'' ''g'' 3 # [mk_tag ''@apiVersion'' ''1.0.0'' 4]
         @ mk_tag ''@apigroup'' ''h'' 5 # [mk_tag ''@apiTags'' ''x'' 6])
       = Some (Some (syntaxError (mk_tag ''@apigroup'' ''h'' 5)
                 (Sprintf ErrDuplicateTag [''@apiGroup''])),
               new_api\<lparr>api_method := ''GET'', path := ''/x'', summary := ''s'',
                 group := ''g'', version := ''1.0.0'', deprecated := True\<rparr>,
               [mk_tag ''@apiTags'' ''x'' 6])"
proof -
  have lower_group: "ascii_lower ''@apigroup'' = ''@apigroup''" by code_simp
  have valid: "semver_valid ''1.0.0''" by code_simp
  have h1: "ToLower ascii_env (tag_name (mk_tag ''@api'' ''get /x s'' 1)) = ''@api''"
    by (simp add: ascii_env_def mk_tag_def lower_names)
  have h2: "split ascii_env (tag_data (mk_tag ''@api'' ''get /x s'' 1)) 3 = [''get'', ''/x'', ''s'']"
    by (simp add: ascii_env_def mk_tag_def split_data)
  have h3: "parser_parseAPI ascii_env (mk_tag ''@api'' ''get /x s'' 1 # [mk_tag ''@apiDeprecated'' [] 2]
         @ mk_tag ''@apiGroup'' ''g'' 3 # [mk_tag ''@apiVersion'' ''1.0.0'' 4])
       = Some (None, new_api\<lparr>api_method := ''GET'', path := ''/x'', summary := ''s'',
                 group := ''g'', version := ''1.0.0'', deprecated := True\<rparr>, [])"
    by (simp add: parser_parseAPI_def ascii_env_def mk_tag_def new_api_def api_tag_def
        lower_names split_data upper_methods valid Let_def)
  have h4: "ToLower ascii_env (tag_name (mk_tag ''@apiGroup'' ''g'' 3)) = ''@apigroup''"
    by (simp add: ascii_env_def mk_tag_def lower_names)
  have h5: "ToLower ascii_env (tag_name (mk_tag ''@apigroup'' ''h'' 5)) = ''@apigroup''"
    by (simp add: ascii_env_def mk_tag_def lower_group)
  have h6: "(''@apigroup'', ''@apiGroup'') \<in> {(''@apigroup'', ''@apiGroup''),
      (''@apitags'', ''@apiTags''), (''@apiversion'', ''@apiVersion'')}"
    by simp
  have h7: "tag_data (mk_tag ''@apiGroup'' ''g'' 3) \<noteq> []" by (simp add: mk_tag_def)
  then have h7': "''@apigroup'' = ''@apitags'' \<or> tag_data (mk_tag ''@apiGroup'' ''g'' 3) \<noteq> []"
    by simp
  note inst = duplicate_singleton_tag [where rest = "[mk_tag ''@apiTags'' ''x'' 6]",
      OF h1 h2 h3 h4 h5 h6 h7']
  from h1 h2 h3 h4 h5 h7 inst show ?thesis by blast
qed

text \<open>The eight method names are those that select a slot.\<close>

lemma method_slot_eight:
  "(method_slot u \<noteq> None) =
     (u \<in> {''GET'', ''POST'', ''PUT'', ''DELETE'', ''PATCH'', ''OPTIONS'', ''HEAD'', ''TRACE''})"
  by (simp add: method_slot_def)

text \<open>
  C4. For an \<^verbatim>\<open>@api\<close> tag with the method token \<open>m\<close>, the object the parser builds
  carries the upper-cased token as its method: so it is when the tag is the whole block,
  and whenever the parse of a block opening with the tag returns. In the builder, an API
  with the token \<open>m\<close> whose upper-cased method is one of the eight is installed in the
  slot of that method, its slot being free; with any other method the add fails with the
  invalid-method error and no slot of the document changes.
\<close>

theorem method_normalization:
  assumes api_tag: "ToLower env (tag_name t) = ''@api''" "split env (tag_data t) 3 = [m, p, s]"
    and api: "SplitN (API_API a) (CHR '' '') 3 = [m, key, s']"
  shows "parser_parseAPI env [t] =
       Some (None, new_api\<lparr>api_method := ToUpper env m, path := p, summary := s\<rparr>, [])
     \<and> (\<forall>ts e obj rest. parser_parseAPI env (t # ts) = Some (e, obj, rest)
            \<longrightarrow> api_method obj = ToUpper env m)
     \<and> (case method_slot (ToUpper env m) of
          Some r \<Rightarrow>
            ToUpper env m \<in> {''GET'', ''POST'', ''PUT'', ''DELETE'', ''PATCH'', ''OPTIONS'',
                ''HEAD'', ''TRACE''}
            \<and> (operation_at doc key r = None \<longrightarrow>
                 snd (Doc_parseAPI (ToUpper env) doc a) = None
                 \<and> operation_at (fst (Doc_parseAPI (ToUpper env) doc a)) key r
                     = Some (operation_of a))
        | None \<Rightarrow>
            ToUpper env m \<notin> {''GET'', ''POST'', ''PUT'', ''DELETE'', ''PATCH'', ''OPTIONS'',
                ''HEAD'', ''TRACE''}
            \<and> snd (Doc_parseAPI (ToUpper env) doc a) = Some ErrInvalidMethod
            \<and> (\<forall>k r. operation_at (fst (Doc_parseAPI (ToUpper env) doc a)) k r
                  = operation_at doc k r))"
proof -
  have one: "parser_parseAPI env [t] =
       Some (None, new_api\<lparr>api_method := ToUpper env m, path := p, summary := s\<rparr>, [])"
    by (simp add: parser_parseAPI_api [OF api_tag])
  have stored: "api_method obj = ToUpper env m"
    if "parser_parseAPI env (t # ts) = Some (e, obj, rest)" for ts e obj rest
    using that api_parseAPI_frame [of env _ ts e obj rest]
    by (simp add: parser_parseAPI_api [OF api_tag])
  have builder: "(case method_slot (ToUpper env m) of
          Some r \<Rightarrow>
            ToUpper env m \<in> {''GET'', ''POST'', ''PUT'', ''DELETE'', ''PATCH'', ''OPTIONS'',
                ''HEAD'', ''TRACE''}
            \<and> (operation_at doc key r = None \<longrightarrow>
                 snd (Doc_parseAPI (ToUpper env) doc a) = None
                 \<and> operation_at (fst (Doc_parseAPI (ToUpper env) doc a)) key r
                     = Some (operation_of a))
        | None \<Rightarrow>
            ToUpper env m \<notin> {''GET'', ''POST'', ''PUT'', ''DELETE'', ''PATCH'', ''OPTIONS'',
                ''HEAD'', ''TRACE''}
            \<and> snd (Doc_parseAPI (ToUpper env) doc a) = Some ErrInvalidMethod
            \<and> (\<forall>k r. operation_at (fst (Doc_parseAPI (ToUpper env) doc a)) k r
                  = operation_at doc k r))"
  proof (cases "method_slot (ToUpper env m)")
    case None
    have "ToUpper env m \<notin> {''GET'', ''POST'', ''PUT'', ''DELETE'', ''PATCH'', ''OPTIONS'',
                ''HEAD'', ''TRACE''}"
      using None method_slot_eight [of "ToUpper env m"] by simp
    then show ?thesis
      using None
      by (simp add: Doc_parseAPI_invalid [where up = "ToUpper env", OF api None]
          operation_at_installed)
  next
    case (Some r)
    have "ToUpper env m \<in> {''GET'', ''POST'', ''PUT'', ''DELETE'', ''PATCH'', ''OPTIONS'',
                ''HEAD'', ''TRACE''}"
      using Some method_slot_eight [of "ToUpper env m"] by simp
    then show ?thesis
      using Some
      by (simp add: Doc_parseAPI_free [where up = "ToUpper env", OF api Some]
          operation_at_install)
  qed
  show ?thesis using one stored builder by blast
qed

theorem method_normalization_witness:
  "ToLower ascii_env (tag_name (mk_tag ''@api'' ''get /x s'' 1)) = ''@api''
   \<and> split ascii_env (tag_data (mk_tag ''@api'' ''get /x s'' 1)) 3 = [''get'', ''/x'', ''s'']
   \<and> SplitN (API_API (mk_API ''get /x s'' [])) (CHR '' '') 3 = [''get'', ''/x'', ''s'']
   \<and> parser_parseAPI ascii_env [mk_tag ''@api'' ''get /x s'' 1] =
       Some (None, new_api\<lparr>api_method := ''GET'', path := ''/x'', summary := ''s''\<rparr>, [])
   \<and> snd (Doc_parseAPI (ToUpper ascii_env) \<lparr>Paths = None\<rparr> (mk_API ''get /x s'' [])) = None
   \<and> operation_at (fst (Doc_parseAPI (ToUpper ascii_env) \<lparr>Paths = None\<rparr> (mk_API ''get /x s'' [])))
         ''/x'' MethodGet = Some (operation_of (mk_API ''get /x s'' []))
   \<and> ToLower ascii_env (tag_name (mk_tag ''@api'' ''FOO /x hi'' 1)) = ''@api''
   \<and> split ascii_env (tag_data (mk_tag ''@api'' ''FOO /x hi'' 1)) 3 = [''FOO'', ''/x'', ''hi'']
   \<and> SplitN (API_API (mk_API ''FOO /x hi'' [])) (CHR '' '') 3 = [''FOO'', ''/x'', ''hi'']
   \<and> snd (Doc_parseAPI (ToUpper ascii_env) \<lparr>Paths = None\<rparr> (mk_API ''FOO /x hi'' []))
       = Some ErrInvalidMethod
   \<and> operation_at (fst (Doc_parseAPI (ToUpper ascii_env) \<lparr>Paths = None\<rparr> (mk_API ''FOO /x hi'' [])))
         ''/x'' MethodGet = None"
proof -
  have up: "ToUpper ascii_env = ascii_upper" by (simp add: ascii_env_def)
  have g1: "ToLower ascii_env (tag_name (mk_tag ''@api'' ''get /x s'' 1)) = ''@api''"
    by (simp add: ascii_env_def mk_tag_def lower_names)
  have g2: "split ascii_env (tag_data (mk_tag ''@api'' ''get /x s'' 1)) 3 = [''get'', ''/x'', ''s'']"
    by (simp add: ascii_env_def mk_tag_def split_data)
  have g3: "SplitN (API_API (mk_API ''get /x s'' [])) (CHR '' '') 3 = [''get'', ''/x'', ''s'']"
    by code_simp
  have g4: "method_slot ''GET'' = Some MethodGet" by (simp add: method_slot_def)
  have g5: "operation_at \<lparr>Paths = None\<rparr> ''/x'' MethodGet = None"
    by (simp add: operation_at_def)
  have g6: "ToUpper ascii_env ''get'' = ''GET''" by (simp add: up upper_methods)
  note valid = method_normalization [where doc = "\<lparr>Paths = None\<rparr>", OF g1 g2 g3]
  have f1: "ToLower ascii_env (tag_name (mk_tag ''@api'' ''FOO /x hi'' 1)) = ''@api''"
    by (simp add: ascii_env_def mk_tag_def lower_names)
  have f2: "split ascii_env (tag_data (mk_tag ''@api'' ''FOO /x hi'' 1)) 3 = [''FOO'', ''/x'', ''hi'']"
    unfolding ascii_env_def mk_tag_def by simp code_simp
  have f3: "SplitN (API_API (mk_API ''FOO /x hi'' [])) (CHR '' '') 3 = [''FOO'', ''/x'', ''hi'']"
    by code_simp
  have f4: "method_slot ''FOO'' = None" by (simp add: method_slot_def)
  have f6: "ToUpper ascii_env ''FOO'' = ''FOO''" by (simp add: up upper_methods)
  note invalid = method_normalization [where doc = "\<lparr>Paths = None\<rparr>", OF f1 f2 f3]
  show ?thesis
    using g1 g2 g3 f1 f2 f3 valid invalid by (simp add: g4 g5 g6 f4 f6)
qed

text \<open>A successful step of \<^verbatim>\<open>api.parseAPI\<close> leaves a version that is unset or valid.\<close>

lemma api_tag_version:
  assumes "api_tag env obj t = Some (obj', None)"
    and "version obj = [] \<or> SemVerValid env (version obj)"
  shows "version obj' = [] \<or> SemVerValid env (version obj')"
  using assms by (auto simp: api_tag_def Let_def tags_loop_eq split: if_splits option.splits)

lemma api_parseAPI_version:
  "api_parseAPI env obj ts = Some (None, obj', rest) \<Longrightarrow>
   version obj = [] \<or> SemVerValid env (version obj) \<Longrightarrow>
   version obj' = [] \<or> SemVerValid env (version obj')"
proof (induction ts arbitrary: obj)
  case Nil
  then show ?case by auto
next
  case (Cons t ts)
  show ?case
  proof (cases "api_tag env obj t")
    case None
    then show ?thesis using Cons.prems by simp
  next
    case (Some r)
    obtain o1 e1 where r: "r = (o1, e1)" by (cases r)
    show ?thesis
    proof (cases e1)
      case None
      then have run: "api_parseAPI env o1 ts = Some (None, obj', rest)"
        using Cons.prems Some r by simp
      have "version o1 = [] \<or> SemVerValid env (version o1)"
        using api_tag_version [of env obj t o1] Some r None Cons.prems(2) by simp
      from Cons.IH [OF run this] show ?thesis .
    next
      case (Some err)
      then show ?thesis using Cons.prems \<open>api_tag env obj t = Some r\<close> r by simp
    qed
  qed
qed

lemma parser_loop_version:
  "parser_loop env obj ts = Some (None, obj', rest) \<Longrightarrow>
   version obj = [] \<or> SemVerValid env (version obj) \<Longrightarrow>
   version obj' = [] \<or> SemVerValid env (version obj')"
proof (induction ts arbitrary: obj)
  case Nil
  then show ?case by auto
next
  case (Cons t ts)
  let ?n = "ToLower env (tag_name t)"
  consider (api) "?n = ''@api''" | (req) "?n = ''@apirequest''" | (resp) "?n = ''@apiresponse''"
    | (other) "?n \<noteq> ''@api''" "?n \<noteq> ''@apirequest''" "?n \<noteq> ''@apiresponse''"
    by blast
  then show ?case
  proof cases
    case api
    let ?o = "obj\<lparr>api_method := ToUpper env (split env (tag_data t) 3 ! 0),
        path := split env (tag_data t) 3 ! 1, summary := split env (tag_data t) 3 ! 2\<rparr>"
    from Cons.prems(1) api obtain o1 l where
      run: "api_parseAPI env ?o ts = Some (None, o1, l)" and
      after: "parser_loop env o1 l = Some (None, obj', rest)"
      by (auto simp: Let_def split: if_splits option.splits prod.splits)
    have "l = []" using run api_parseAPI_ok_rest by blast
    then have "obj' = o1" using after by simp
    moreover have "version o1 = [] \<or> SemVerValid env (version o1)"
      using api_parseAPI_version [OF run] Cons.prems(2) by simp
    ultimately show ?thesis by simp
  next
    case req
    then show ?thesis
      using Cons.prems
      by (auto simp: Let_def parseRequest_replaces_request split: if_splits)
  next
    case resp
    then show ?thesis using Cons.prems Cons.IH [of obj] by (simp add: Let_def)
  next
    case other
    then show ?thesis using Cons.prems by (simp add: Let_def)
  qed
qed

lemma api_tag_version_fixed:
  "api_tag env obj t = Some (obj', e) \<Longrightarrow> version obj \<noteq> [] \<Longrightarrow> version obj' = version obj"
  by (auto simp: api_tag_def Let_def tags_loop_eq split: if_splits option.splits)

lemma api_parseAPI_version_fixed:
  "api_parseAPI env obj ts = Some (e, obj', rest) \<Longrightarrow> version obj \<noteq> [] \<Longrightarrow>
   version obj' = version obj"
proof (induction ts arbitrary: obj)
  case Nil
  then show ?case by simp
next
  case (Cons t ts)
  show ?case
  proof (cases "api_tag env obj t")
    case None
    then show ?thesis using Cons.prems by simp
  next
    case (Some r)
    obtain o1 e1 where r: "r = (o1, e1)" by (cases r)
    have v1: "version o1 = version obj"
      using api_tag_version_fixed [of env obj t o1 e1] Some r Cons.prems(2) by simp
    show ?thesis
    proof (cases e1)
      case None
      then have "api_parseAPI env o1 ts = Some (e, obj', rest)"
        using Cons.prems Some r by simp
      from Cons.IH [OF this] v1 Cons.prems(2) show ?thesis by simp
    next
      case (Some err)
      then have "obj' = o1" using Cons.prems \<open>api_tag env obj t = Some r\<close> r by simp
      then show ?thesis using v1 by simp
    qed
  qed
qed

text \<open>
  C6. Let a block open with a well-formed \<^verbatim>\<open>@api\<close> tag and parse without error up to
  an \<^verbatim>\<open>@apiVersion\<close> tag, no version being set so far. If the data of the tag passes the
  semantic-version check, the version is stored, the parse goes on with it and a
  non-empty stored version is in the object whenever the parse returns; if not, the
  parse fails at the tag with \<^verbatim>\<open>ErrInvalidFormat\<close> naming \<^verbatim>\<open>@apiVersion\<close>. And the version
  of the object of any block parsed without error is unset or passes the check.
\<close>

theorem version_checked_by_semver:
  assumes open_tag: "ToLower env (tag_name t0) = ''@api''" "split env (tag_data t0) 3 = [m, p, s]"
    and prefix: "parser_parseAPI env (t0 # pre) = Some (None, obj, [])"
    and unset: "version obj = []"
    and tag: "ToLower env (tag_name t) = ''@apiversion''"
  shows "(if SemVerValid env (tag_data t)
          then parser_parseAPI env (t0 # pre @ [t]) = Some (None, obj\<lparr>version := tag_data t\<rparr>, [])
             \<and> parser_parseAPI env (t0 # pre @ t # rest)
                 = api_parseAPI env (obj\<lparr>version := tag_data t\<rparr>) rest
             \<and> (\<forall>e obj' l. tag_data t \<noteq> []
                   \<and> parser_parseAPI env (t0 # pre @ t # rest) = Some (e, obj', l)
                   \<longrightarrow> version obj' = tag_data t)
          else parser_parseAPI env (t0 # pre @ t # rest)
                 = Some (Some (syntaxError t (Sprintf ErrInvalidFormat [''@apiVersion''])),
                         obj\<lparr>version := tag_data t\<rparr>, rest))
     \<and> (\<forall>ts obj' l. parser_parseAPI env ts = Some (None, obj', l)
           \<longrightarrow> version obj' = [] \<or> SemVerValid env (version obj'))"
proof -
  let ?o0 = "new_api\<lparr>api_method := ToUpper env m, path := p, summary := s\<rparr>"
  have pre_ok: "api_parseAPI env ?o0 pre = Some (None, obj, [])"
    using prefix by (simp add: parser_parseAPI_api [OF open_tag])
  have cont: "parser_parseAPI env (t0 # pre @ ys) = api_parseAPI env obj ys" for ys
    by (simp add: parser_parseAPI_api [OF open_tag] api_parseAPI_append pre_ok)
  have inv: "version obj' = [] \<or> SemVerValid env (version obj')"
    if "parser_parseAPI env ts = Some (None, obj', l)" for ts obj' l
    using that parser_loop_version [of env new_api ts obj' l]
    by (simp add: parser_parseAPI_def new_api_def)
  show ?thesis
  proof (cases "SemVerValid env (tag_data t)")
    case True
    have step: "api_tag env obj t = Some (obj\<lparr>version := tag_data t\<rparr>, None)"
      using True unset tag by (simp add: api_tag_def)
    have fixed: "version obj' = tag_data t"
      if "tag_data t \<noteq> []" "parser_parseAPI env (t0 # pre @ t # rest) = Some (e, obj', l)"
      for e obj' l
      using that api_parseAPI_version_fixed [of env "obj\<lparr>version := tag_data t\<rparr>" rest e obj' l]
      by (simp add: cont step)
    show ?thesis using True inv fixed by (simp add: cont step)
  next
    case False
    have step: "api_tag env obj t = Some (obj\<lparr>version := tag_data t\<rparr>,
        Some (syntaxError t (Sprintf ErrInvalidFormat [''@apiVersion''])))"
      using False unset tag by (simp add: api_tag_def)
    show ?thesis using False inv by (simp add: cont step)
  qed
qed

lemma semver_examples: "semver_valid ''1.0.0''" "\<not> semver_valid ''1.0''"
  by code_simp+

theorem version_checked_by_semver_witness:
  "ToLower ascii_env (tag_name (mk_tag ''@api'' ''get /x s'' 1)) = ''@api''
   \<and> split ascii_env (tag_data (mk_tag ''@api'' ''get /x s'' 1)) 3 = [''get'', ''/x'', ''s'']
   \<and> parser_parseAPI ascii_env (mk_tag ''@api'' ''get /x s'' 1 # [mk_tag ''@apiGroup'' ''g'' 2])
       = Some (None, new_api\<lparr>api_method := ''GET'', path := ''/x'', summary := ''s'',
                 group := ''g''\<rparr>, [])
   \<and> version (new_api\<lparr>api_method := ''GET'', path := ''/x'', summary := ''s'', group := ''g''\<rparr>) = []
   \<and> ToLower ascii_env (tag_name (mk_tag ''@apiVersion'' ''1.0.0'' 3)) = ''@apiversion''
   \<and> ToLower ascii_env (tag_name (mk_tag ''@apiVersion'' ''1.0'' 3)) = ''@apiversion''
   \<and> parser_parseAPI ascii_env (mk_tag ''@api'' ''get /x s'' 1 # [mk_tag ''@apiGroup'' ''g'' 2]
         @ [mk_tag ''@apiVersion'' ''1.0.0'' 3])
       = Some (None, new_api\<lparr>api_method := ''GET'', path := ''/x'', summary := ''s'',
                 group := ''g'', version := ''1.0.0''\<rparr>, [])
   \<and> parser_parseAPI ascii_env (mk_tag ''@api'' ''get /x s'' 1 # [mk_tag ''@apiGroup'' ''g'' 2]
         @ mk_tag ''@apiVersion'' ''1.0'' 3 # [mk_tag ''@apiDeprecated'' [] 4])
       = Some (Some (syntaxError (mk_tag ''@apiVersion'' ''1.0'' 3)
                 (Sprintf ErrInvalidFormat [''@apiVersion''])),
               new_api\<lparr>api_method := ''GET'', path := ''/x'', summary := ''s'',
                 group := ''g'', version := ''1.0''\<rparr>,
               [mk_tag ''@apiDeprecated'' [] 4])"
proof -
  have h1: "ToLower ascii_env (tag_name (mk_tag ''@api'' ''get /x s'' 1)) = ''@api''"
    by (simp add: ascii_env_def mk_tag_def lower_names)
  have h2: "split ascii_env (tag_data (mk_tag ''@api'' ''get /x s'' 1)) 3 = [''get'', ''/x'', ''s'']"
    by (simp add: ascii_env_def mk_tag_def split_data)
  have h3: "parser_parseAPI ascii_env (mk_tag ''@api'' ''get /x s'' 1 # [mk_tag ''@apiGroup'' ''g'' 2])
       = Some (None, new_api\<lparr>api_method := ''GET'', path := ''/x'', summary := ''s'',
                 group := ''g''\<rparr>, [])"
    by (simp add: parser_parseAPI_def ascii_env_def mk_tag_def new_api_def api_tag_def
        lower_names split_data upper_methods Let_def)
  have h4: "version (new_api\<lparr>api_method := ''GET'', path := ''/x'', summary := ''s'',
      group := ''g''\<rparr>) = []"
    by (simp add: new_api_def)
  have h5: "ToLower ascii_env (tag_name (mk_tag ''@apiVersion'' ''1.0.0'' 3)) = ''@apiversion''"
    by (simp add: ascii_env_def mk_tag_def lower_names)
  have h6: "ToLower ascii_env (tag_name (mk_tag ''@apiVersion'' ''1.0'' 3)) = ''@apiversion''"
    by (simp add: ascii_env_def mk_tag_def lower_names)
  have v1: "SemVerValid ascii_env (tag_data (mk_tag ''@apiVersion'' ''1.0.0'' 3))"
    by (simp add: ascii_env_def mk_tag_def semver_examples)
  have v2: "\<not> SemVerValid ascii_env (tag_data (mk_tag ''@apiVersion'' ''1.0'' 3))"
    by (simp add: ascii_env_def mk_tag_def semver_examples)
  note valid = version_checked_by_semver [OF h1 h2 h3 h4 h5]
  note invalid = version_checked_by_semver [where rest = "[mk_tag ''@apiDeprecated'' [] 4]",
      OF h1 h2 h3 h4 h6]
  have r1: "parser_parseAPI ascii_env (mk_tag ''@api'' ''get /x s'' 1 # [mk_tag ''@apiGroup'' ''g'' 2]
         @ [mk_tag ''@apiVersion'' ''1.0.0'' 3])
       = Some (None, new_api\<lparr>api_method := ''GET'', path := ''/x'', summary := ''s'',
                 group := ''g'', version := ''1.0.0''\<rparr>, [])"
    using valid v1 by (simp add: mk_tag_def)
  have r2: "parser_parseAPI ascii_env (mk_tag ''@api'' ''get /x s'' 1 # [mk_tag ''@apiGroup'' ''g'' 2]
         @ mk_tag ''@apiVersion'' ''1.0'' 3 # [mk_tag ''@apiDeprecated'' [] 4])
       = Some (Some (syntaxError (mk_tag ''@apiVersion'' ''1.0'' 3)
                 (Sprintf ErrInvalidFormat [''@apiVersion''])),
               new_api\<lparr>api_method := ''GET'', path := ''/x'', summary := ''s'',
                 group := ''g'', version := ''1.0''\<rparr>,
               [mk_tag ''@apiDeprecated'' [] 4])"
    using invalid v2 by (simp add: mk_tag_def)
  from h1 h2 h3 h4 h5 h6 r1 r2 show ?thesis by blast
qed

section \<open>Properties of the block lexer\<close>

text \<open>
  The loop, run over recognized blocks, sends those with a non-empty \<^verbatim>\<open>raw\<close> and goes on
  from the state behind them; it reports nothing.
\<close>

lemma parseFile_loop_recognized:
  assumes "recognized ops l rs l'"
  shows "parseFile_loop ops uri l out =
     parseFile_loop ops uri l' (out\<lparr>sent := sent out @ emitted uri rs\<rparr>)"
  using assms
proof (induction arbitrary: out rule: recognized.induct)
  case (none l)
  then show ?case by (simp add: emitted_def)
next
  case (block l b bpos l1 raw data l2 rs l')
  show ?case
  proof (cases "raw = []")
    case True
    have "parseFile_loop ops uri l out = parseFile_loop ops uri l2 out"
      using block.hyps(1-3) True by (subst parseFile_loop.simps) simp
    also have "\<dots> = parseFile_loop ops uri l' (out\<lparr>sent := sent out @ emitted uri rs\<rparr>)"
      by (rule block.IH)
    finally show ?thesis using True by (simp add: emitted_def)
  next
    case False
    let ?b = "\<lparr>File = uri, Range = \<lparr>Start = bpos, End = Position ops l2\<rparr>, Data = data, Raw = raw\<rparr>"
    have "parseFile_loop ops uri l out = parseFile_loop ops uri l2 (out\<lparr>sent := sent out @ [?b]\<rparr>)"
      using block.hyps(1-3) False by (subst parseFile_loop.simps) simp
    also have "\<dots> = parseFile_loop ops uri l'
        ((out\<lparr>sent := sent out @ [?b]\<rparr>)\<lparr>sent := sent (out\<lparr>sent := sent out @ [?b]\<rparr>) @ emitted uri rs\<rparr>)"
      by (rule block.IH)
    finally show ?thesis using False by (simp add: emitted_def)
  qed
qed

lemma php_lexer_ops:
  "NewLexer php_lexer d = Inr (lexer_at d 0 newPHPDocBlock)"
  "AtEOF php_lexer st = Lexer_AtEOF (lexer st)"
  "Block php_lexer st = Lexer_Block st"
  "EndFunc php_lexer b st = Blocker_EndFunc b st"
  "Position php_lexer st = Lexer_Position (lexer st)"
  by (simp_all add: php_lexer_def lexer_at_def)

text \<open>
  C7. When the lexer, having recognized some blocks, opens a block whose end is not
  found (\<^verbatim>\<open>EndFunc\<close> returns \<^verbatim>\<open>ok = false\<close>), \<^verbatim>\<open>parseFile\<close> returns having reported exactly
  one error, \<^verbatim>\<open>ErrNotFoundEndFlag\<close> with the line of the position where that block opens,
  and having sent the blocks recognized before it and no other.
\<close>

theorem unterminated_block_reported_once:
  assumes lexer: "NewLexer ops bytes = Inr l0"
    and before: "recognized ops l0 rs l"
    and opened: "\<not> AtEOF ops l" "Block ops l = Some ((Some b, bpos), l1)"
    and no_end: "EndFunc ops b l1 = Some ((raw, data, False), l2)"
  shows "parseFile ops uri (Inr bytes) =
     Some \<lparr>sent = emitted uri rs,
           reported = [NewLocaleError uri [] (Line bpos) ErrNotFoundEndFlag]\<rparr>"
proof -
  have "parseFile_loop ops uri l out =
      Some (out\<lparr>reported := reported out @ [NewLocaleError uri [] (Line bpos) ErrNotFoundEndFlag]\<rparr>)"
    for out
    using opened no_end by (subst parseFile_loop.simps) simp
  then show ?thesis
    using lexer by (simp add: parseFile_def parseFile_loop_recognized [OF before])
qed

theorem unterminated_block_reported_once_witness:
  "NewLexer php_lexer unterminated_file = Inr (lexer_at unterminated_file 0 newPHPDocBlock)
   \<and> recognized php_lexer (lexer_at unterminated_file 0 newPHPDocBlock)
       [(\<lparr>Line = 0, Column = 0, Offset = 0\<rparr>, ''/* a */'', ''a '',
         \<lparr>Line = 0, Column = 7, Offset = 7\<rparr>)]
       (lexer_at unterminated_file 7 newPHPDocBlock)
   \<and> \<not> AtEOF php_lexer (lexer_at unterminated_file 7 newPHPDocBlock)
   \<and> Block php_lexer (lexer_at unterminated_file 7 newPHPDocBlock)
       = Some ((Some PHPDoc, \<lparr>Line = 1, Column = 5, Offset = 13\<rparr>),
               lexer_at unterminated_file 16 eot_block)
   \<and> EndFunc php_lexer PHPDoc (lexer_at unterminated_file 16 eot_block)
       = Some (([], [], False), lexer_at unterminated_file 23 eot_block)
   \<and> parseFile php_lexer ''x.php'' (Inr unterminated_file)
       = Some \<lparr>sent = [\<lparr>File = ''x.php'',
                         Range = \<lparr>Start = \<lparr>Line = 0, Column = 0, Offset = 0\<rparr>,
                                  End = \<lparr>Line = 0, Column = 7, Offset = 7\<rparr>\<rparr>,
                         Data = ''a '', Raw = ''/* a */''\<rparr>],
                reported = [NewLocaleError ''x.php'' [] 1 ErrNotFoundEndFlag]\<rparr>"
proof -
  let ?l0 = "lexer_at unterminated_file 0 newPHPDocBlock"
  let ?l1 = "lexer_at unterminated_file 7 newPHPDocBlock"
  have h1: "NewLexer php_lexer unterminated_file = Inr ?l0" by (rule php_lexer_ops)
  have a0: "\<not> AtEOF php_lexer ?l0" unfolding php_lexer_ops by code_simp
  have b0: "Block php_lexer ?l0 = Some ((Some Comment, \<lparr>Line = 0, Column = 0, Offset = 0\<rparr>),
      lexer_at unterminated_file 2 newPHPDocBlock)"
    unfolding php_lexer_ops by code_simp
  have e0: "EndFunc php_lexer Comment (lexer_at unterminated_file 2 newPHPDocBlock)
      = Some ((''/* a */'', ''a '', True), ?l1)"
    unfolding php_lexer_ops by code_simp
  have p1: "Position php_lexer ?l1 = \<lparr>Line = 0, Column = 7, Offset = 7\<rparr>"
    unfolding php_lexer_ops by code_simp
  have h2: "recognized php_lexer ?l0
       [(\<lparr>Line = 0, Column = 0, Offset = 0\<rparr>, ''/* a */'', ''a '',
         \<lparr>Line = 0, Column = 7, Offset = 7\<rparr>)] ?l1"
    using recognized.block [OF a0 b0 e0 recognized.none] by (simp only: p1)
  have h3: "\<not> AtEOF php_lexer ?l1" unfolding php_lexer_ops by code_simp
  have h4: "Block php_lexer ?l1 = Some ((Some PHPDoc, \<lparr>Line = 1, Column = 5, Offset = 13\<rparr>),
      lexer_at unterminated_file 16 eot_block)"
    unfolding php_lexer_ops by code_simp
  have h5: "EndFunc php_lexer PHPDoc (lexer_at unterminated_file 16 eot_block)
      = Some (([], [], False), lexer_at unterminated_file 23 eot_block)"
    unfolding php_lexer_ops by code_simp
  note inst = unterminated_block_reported_once [where uri = "''x.php''", OF h1 h2 h3 h4 h5]
  have r: "parseFile php_lexer ''x.php'' (Inr unterminated_file)
       = Some \<lparr>sent = [\<lparr>File = ''x.php'',
                         Range = \<lparr>Start = \<lparr>Line = 0, Column = 0, Offset = 0\<rparr>,
                                  End = \<lparr>Line = 0, Column = 7, Offset = 7\<rparr>\<rparr>,
                         Data = ''a '', Raw = ''/* a */''\<rparr>],
                reported = [NewLocaleError ''x.php'' [] 1 ErrNotFoundEndFlag]\<rparr>"
    using inst by (simp add: emitted_def)
  from h1 h2 h3 h4 h5 r show ?thesis by blast
qed

text \<open>
  C8, as claimed: a block whose \<^verbatim>\<open>data\<close> is empty is not sent. The code tests \<^verbatim>\<open>raw\<close>, not
  \<^verbatim>\<open>data\<close>: the comment \<^verbatim>\<open>/* */\<close> has the raw text \<^verbatim>\<open>/* */\<close> and, once stripped, no data,
  and it is sent.
\<close>

theorem block_with_empty_data_sent:
  "parseFile php_lexer ''x.php'' (Inr ''/* */'') =
     Some \<lparr>sent = [\<lparr>File = ''x.php'',
                     Range = \<lparr>Start = \<lparr>Line = 0, Column = 0, Offset = 0\<rparr>,
                              End = \<lparr>Line = 0, Column = 5, Offset = 5\<rparr>\<rparr>,
                     Data = [], Raw = ''/* */''\<rparr>],
            reported = []\<rparr>"
  by code_simp

text \<open>
  C8, amended. When the lexer recognizes the blocks of a file to its end, \<^verbatim>\<open>parseFile\<close>
  sends, in order, exactly the blocks whose \<^verbatim>\<open>raw\<close> is not empty, whatever their \<^verbatim>\<open>data\<close>;
  a block whose \<^verbatim>\<open>raw\<close> is empty is not sent, and nothing is reported.
\<close>

theorem blocks_with_raw_are_sent:
  assumes lexer: "NewLexer ops bytes = Inr l0"
    and all: "recognized ops l0 rs l"
    and finished: "AtEOF ops l \<or> (\<exists>bpos l1. Block ops l = Some ((None, bpos), l1))"
  shows "parseFile ops uri (Inr bytes) = Some \<lparr>sent = emitted uri rs, reported = []\<rparr>"
proof -
  have "parseFile_loop ops uri l out = Some out" for out
    using finished by (subst parseFile_loop.simps) auto
  then show ?thesis
    using lexer by (simp add: parseFile_def parseFile_loop_recognized [OF all])
qed

theorem blocks_with_raw_are_sent_witness:
  "NewLexer php_lexer terminated_file = Inr (lexer_at terminated_file 0 newPHPDocBlock)
   \<and> recognized php_lexer (lexer_at terminated_file 0 newPHPDocBlock)
       [(\<lparr>Line = 0, Column = 0, Offset = 0\<rparr>, [], [], \<lparr>Line = 3, Column = 0, Offset = 15\<rparr>),
        (\<lparr>Line = 3, Column = 0, Offset = 15\<rparr>, ''/* c */'', ''c '',
         \<lparr>Line = 3, Column = 7, Offset = 22\<rparr>)]
       (lexer_at terminated_file 22 eot_block)
   \<and> AtEOF php_lexer (lexer_at terminated_file 22 eot_block)
   \<and> parseFile php_lexer ''x.php'' (Inr terminated_file)
       = Some \<lparr>sent = [\<lparr>File = ''x.php'',
                         Range = \<lparr>Start = \<lparr>Line = 3, Column = 0, Offset = 15\<rparr>,
                                  End = \<lparr>Line = 3, Column = 7, Offset = 22\<rparr>\<rparr>,
                         Data = ''c '', Raw = ''/* c */''\<rparr>],
                reported = []\<rparr>"
proof -
  let ?l0 = "lexer_at terminated_file 0 newPHPDocBlock"
  let ?l1 = "lexer_at terminated_file 15 eot_block"
  let ?l2 = "lexer_at terminated_file 22 eot_block"
  have h1: "NewLexer php_lexer terminated_file = Inr ?l0" by (rule php_lexer_ops)
  have a0: "\<not> AtEOF php_lexer ?l0" unfolding php_lexer_ops by code_simp
  have b0: "Block php_lexer ?l0 = Some ((Some PHPDoc, \<lparr>Line = 0, Column = 0, Offset = 0\<rparr>),
      lexer_at terminated_file 3 eot_block)"
    unfolding php_lexer_ops by code_simp
  have e0: "EndFunc php_lexer PHPDoc (lexer_at terminated_file 3 eot_block)
      = Some (([], [], True), ?l1)"
    unfolding php_lexer_ops by code_simp
  have p1: "Position php_lexer ?l1 = \<lparr>Line = 3, Column = 0, Offset = 15\<rparr>"
    unfolding php_lexer_ops by code_simp
  have a1: "\<not> AtEOF php_lexer ?l1" unfolding php_lexer_ops by code_simp
  have b1: "Block php_lexer ?l1 = Some ((Some Comment, \<lparr>Line = 3, Column = 0, Offset = 15\<rparr>),
      lexer_at terminated_file 17 eot_block)"
    unfolding php_lexer_ops by code_simp
  have e1: "EndFunc php_lexer Comment (lexer_at terminated_file 17 eot_block)
      = Some ((''/* c */'', ''c '', True), ?l2)"
    unfolding php_lexer_ops by code_simp
  have p2: "Position php_lexer ?l2 = \<lparr>Line = 3, Column = 7, Offset = 22\<rparr>"
    unfolding php_lexer_ops by code_simp
  have h2: "recognized php_lexer ?l0
       [(\<lparr>Line = 0, Column = 0, Offset = 0\<rparr>, [], [], \<lparr>Line = 3, Column = 0, Offset = 15\<rparr>),
        (\<lparr>Line = 3, Column = 0, Offset = 15\<rparr>, ''/* c */'', ''c '',
         \<lparr>Line = 3, Column = 7, Offset = 22\<rparr>)] ?l2"
    using recognized.block [OF a0 b0 e0 recognized.block [OF a1 b1 e1 recognized.none]]
    by (simp only: p1 p2)
  have h3: "AtEOF php_lexer ?l2" unfolding php_lexer_ops by code_simp
  then have h3': "AtEOF php_lexer ?l2 \<or> (\<exists>bpos l1. Block php_lexer ?l2 = Some ((None, bpos), l1))"
    by simp
  note inst = blocks_with_raw_are_sent [where uri = "''x.php''", OF h1 h2 h3']
  have r: "parseFile php_lexer ''x.php'' (Inr terminated_file)
       = Some \<lparr>sent = [\<lparr>File = ''x.php'',
                         Range = \<lparr>Start = \<lparr>Line = 3, Column = 0, Offset = 15\<rparr>,
                                  End = \<lparr>Line = 3, Column = 7, Offset = 22\<rparr>\<rparr>,
                         Data = ''c '', Raw = ''/* c */''\<rparr>],
                reported = []\<rparr>"
    using inst by (simp add: emitted_def)
  from h1 h2 h3 r show ?thesis by blast
qed


end
